theory Spec2Isabelle
  imports Complex_Main
begin

section \<open>Timeline store: data model\<close>

text \<open>
  The store of the clip-based video editor (the zustand store \<open>useTimelineStore\<close>) and
  the active-clip lookup of the preview panel. JavaScript numbers are modelled as
  \<^typ>\<open>real\<close>: arithmetic is exact and every number is finite, so rounding, \<open>NaN\<close> and
  the infinities of IEEE doubles are outside the model. An optional field or argument
  (\<open>trimStart?: number\<close>) is an \<^typ>\<open>real option\<close>, \<open>undefined\<close> being \<open>None\<close>.
  \<open>crypto.randomUUID()\<close> is an input of the model: an operation that draws one id takes
  it as an argument, \<open>splitClip\<close> takes the sequence of ids the generator will return.
\<close>

datatype TrackType = Video | Audio | Effects

text \<open>\<open>Omit<TimelineClip, "id">\<close>: the argument type of \<open>addClipToTrack\<close>.\<close>

record ClipData =
  mediaId :: string
  name :: string
  duration :: real
  trimStart :: "real option"
  trimEnd :: "real option"
  originalDuration :: real
  startTime :: real

record TimelineClip = ClipData +
  clip_id :: string

record TimelineTrack =
  track_id :: string
  track_name :: string
  track_type :: TrackType
  clips :: "TimelineClip list"

record TimelineStore =
  tracks :: "TimelineTrack list"
  playheadPosition :: real
  isPlaying :: bool
  totalDuration :: real
  zoomLevel :: real
  scrollPosition :: real
  viewportDuration :: real

text \<open>
  Modelled from the spec: the media store is not part of the sources, only its use in the
  preview panel is. A media item is
  \<open>{id, type, url, duration, thumbnailUrl?, name}\<close>; the lookup reads \<open>id\<close> only.
\<close>

datatype MediaType = MediaVideo | MediaAudio | MediaImage

record MediaItem =
  item_id :: string
  item_type :: MediaType
  item_url :: string
  item_duration :: real
  item_thumbnailUrl :: "string option"
  item_name :: string

section \<open>JavaScript helpers\<close>

text \<open>\<open>a ?? b\<close> on an optional number.\<close>

definition nullish :: "'a option \<Rightarrow> 'a \<Rightarrow> 'a" where
  "nullish a b = (case a of None \<Rightarrow> b | Some v \<Rightarrow> v)"

text \<open>\<open>Array.prototype.findIndex\<close>: \<open>None\<close> stands for \<open>-1\<close>.\<close>

fun findIndex :: "('a \<Rightarrow> bool) \<Rightarrow> 'a list \<Rightarrow> nat option" where
  "findIndex P [] = None"
| "findIndex P (x # xs) = (if P x then Some 0 else map_option Suc (findIndex P xs))"

text \<open>
  \<open>splice(start, 0, x)\<close> and \<open>splice(start, 1)\<close>: the start index is truncated towards
  zero, a negative one counts from the end, and the result is clamped to the array.
\<close>

definition toIntegerOrInfinity :: "real \<Rightarrow> int" where
  "toIntegerOrInfinity x = (if 0 \<le> x then \<lfloor>x\<rfloor> else \<lceil>x\<rceil>)"

definition spliceStart :: "nat \<Rightarrow> real \<Rightarrow> nat" where
  "spliceStart len start =
     (let r = toIntegerOrInfinity start
      in if r < 0 then nat (max (int len + r) 0) else min (nat r) len)"

definition splice_insert :: "real \<Rightarrow> 'a \<Rightarrow> 'a list \<Rightarrow> 'a list" where
  "splice_insert start x xs =
     (let i = spliceStart (length xs) start in take i xs @ [x] @ drop i xs)"

definition splice_delete1 :: "nat \<Rightarrow> 'a list \<Rightarrow> 'a list" where
  "splice_delete1 i xs = take i xs @ drop (Suc i) xs"

section \<open>Store operations\<close>

definition initialState :: TimelineStore where
  "initialState =
     \<lparr>tracks = [], playheadPosition = 0, isPlaying = False, totalDuration = 0,
      zoomLevel = 1, scrollPosition = 0, viewportDuration = 60\<rparr>"

text \<open>\<open>type.charAt(0).toUpperCase() + type.slice(1) + " Track"\<close> on the three track types.\<close>

fun trackName :: "TrackType \<Rightarrow> string" where
  "trackName Video = ''Video Track''"
| "trackName Audio = ''Audio Track''"
| "trackName Effects = ''Effects Track''"

definition addTrack :: "TrackType \<Rightarrow> string \<Rightarrow> TimelineStore \<Rightarrow> string \<times> TimelineStore" where
  "addTrack type newId state =
     (let newTrack = \<lparr>track_id = newId, track_name = trackName type, track_type = type,
                      clips = []\<rparr>
      in (track_id newTrack, state\<lparr>tracks := tracks state @ [newTrack]\<rparr>))"

definition removeTrack :: "string \<Rightarrow> TimelineStore \<Rightarrow> TimelineStore" where
  "removeTrack trackId state =
     state\<lparr>tracks := filter (\<lambda>track. track_id track \<noteq> trackId) (tracks state)\<rparr>"

text \<open>The end of the last clip of a clip list: the inner \<open>reduce\<close>, starting at 0.\<close>

definition clipsEnd :: "TimelineClip list \<Rightarrow> real" where
  "clipsEnd cs = foldl (\<lambda>maxTime clip. max maxTime (startTime clip + duration clip)) 0 cs"

definition updateTotalDuration :: "TimelineStore \<Rightarrow> TimelineStore" where
  "updateTotalDuration state =
     (let maxDuration = foldl (\<lambda>mx track. max mx (clipsEnd (clips track))) 0 (tracks state)
      in state\<lparr>totalDuration := max maxDuration 300\<rparr>)"

text \<open>
  The object literal \<open>newClip\<close> of \<open>addClipToTrack\<close>: the fields of \<open>clipData\<close>, then the
  id drawn and the four fields the store sets itself.
\<close>

definition newClip :: "ClipData \<Rightarrow> string \<Rightarrow> real \<Rightarrow> TimelineClip" where
  "newClip clipData newId startTime' =
     \<lparr>mediaId = mediaId clipData, name = name clipData, duration = duration clipData,
      trimStart = Some 0, trimEnd = Some (duration clipData),
      originalDuration = duration clipData, startTime = startTime', clip_id = newId\<rparr>"

definition addClipToTrack ::
  "string \<Rightarrow> ClipData \<Rightarrow> string \<Rightarrow> TimelineStore \<Rightarrow> TimelineStore" where
  "addClipToTrack trackId clipData newId state =
     (let track = find (\<lambda>t. track_id t = trackId) (tracks state);
          startTime' = (case track of Some t \<Rightarrow> clipsEnd (clips t) | None \<Rightarrow> 0)
      in updateTotalDuration
           (state\<lparr>tracks :=
              map (\<lambda>track. if track_id track = trackId
                            then track\<lparr>clips := clips track @ [newClip clipData newId startTime']\<rparr>
                            else track)
                  (tracks state)\<rparr>))"

definition removeClipFromTrack :: "string \<Rightarrow> string \<Rightarrow> TimelineStore \<Rightarrow> TimelineStore" where
  "removeClipFromTrack trackId clipId state =
     updateTotalDuration
       (state\<lparr>tracks :=
          map (\<lambda>track. if track_id track = trackId
                        then track\<lparr>clips := filter (\<lambda>clip. clip_id clip \<noteq> clipId) (clips track)\<rparr>
                        else track)
              (tracks state)\<rparr>)"

text \<open>\<open>fromTrack?.clips.find(...)\<close>: the clip looked up on the first track of that id.\<close>

definition findClip :: "string \<Rightarrow> string \<Rightarrow> TimelineStore \<Rightarrow> TimelineClip option" where
  "findClip fromTrackId clipId state =
     (case find (\<lambda>track. track_id track = fromTrackId) (tracks state) of
        None \<Rightarrow> None
      | Some fromTrack \<Rightarrow> find (\<lambda>clip. clip_id clip = clipId) (clips fromTrack))"

definition moveClipToTrack ::
  "string \<Rightarrow> string \<Rightarrow> string \<Rightarrow> real option \<Rightarrow> TimelineStore \<Rightarrow> TimelineStore" where
  "moveClipToTrack fromTrackId toTrackId clipId insertIndex state =
     updateTotalDuration
       (case findClip fromTrackId clipId state of
          None \<Rightarrow> state
        | Some clipToMove \<Rightarrow>
            state\<lparr>tracks :=
              map (\<lambda>track.
                     if track_id track = fromTrackId
                     then track\<lparr>clips := filter (\<lambda>clip. clip_id clip \<noteq> clipId) (clips track)\<rparr>
                     else if track_id track = toTrackId
                     then track\<lparr>clips :=
                            splice_insert (nullish insertIndex (real (length (clips track))))
                              clipToMove (clips track)\<rparr>
                     else track)
                  (tracks state)\<rparr>)"

definition reorderClipInTrack :: "string \<Rightarrow> string \<Rightarrow> real \<Rightarrow> TimelineStore \<Rightarrow> TimelineStore" where
  "reorderClipInTrack trackId clipId newIndex state =
     updateTotalDuration
       (state\<lparr>tracks :=
          map (\<lambda>track.
                 if track_id track \<noteq> trackId then track
                 else case findIndex (\<lambda>clip. clip_id clip = clipId) (clips track) of
                        None \<Rightarrow> track
                      | Some clipIndex \<Rightarrow>
                          track\<lparr>clips :=
                            splice_insert newIndex (clips track ! clipIndex)
                              (splice_delete1 clipIndex (clips track))\<rparr>)
              (tracks state)\<rparr>)"

text \<open>The body of the inner \<open>map\<close> of \<open>trimClip\<close>, on the clip that is trimmed.\<close>

definition trimmed :: "real option \<Rightarrow> real option \<Rightarrow> TimelineClip \<Rightarrow> TimelineClip" where
  "trimmed trimStart' trimEnd' clip =
     (let currentTrimStart = nullish (trimStart clip) 0;
          currentTrimEnd = nullish (trimEnd clip) (originalDuration clip);
          newTrimStart = nullish trimStart' currentTrimStart;
          newTrimEnd = nullish trimEnd' currentTrimEnd;
          validTrimStart = max 0 (min newTrimStart (originalDuration clip));
          validTrimEnd = max (validTrimStart + 1 / 10) (min newTrimEnd (originalDuration clip));
          newDuration = validTrimEnd - validTrimStart;
          newStartTime = (if trimStart' \<noteq> None
                          then startTime clip + (validTrimStart - currentTrimStart)
                          else startTime clip)
      in clip\<lparr>trimStart := Some validTrimStart, trimEnd := Some validTrimEnd,
              duration := newDuration, startTime := newStartTime\<rparr>)"

definition trimClip ::
  "string \<Rightarrow> string \<Rightarrow> real option \<Rightarrow> real option \<Rightarrow> TimelineStore \<Rightarrow> TimelineStore" where
  "trimClip trackId clipId trimStart' trimEnd' state =
     updateTotalDuration
       (state\<lparr>tracks :=
          map (\<lambda>track.
                 if track_id track \<noteq> trackId then track
                 else track\<lparr>clips :=
                        map (\<lambda>clip. if clip_id clip \<noteq> clipId then clip
                                     else trimmed trimStart' trimEnd' clip)
                            (clips track)\<rparr>)
              (tracks state)\<rparr>)"

text \<open>
  The two pieces \<open>splitClip\<close> builds from \<open>originalClip\<close>, with the two ids drawn for them.
\<close>

definition firstClip :: "real \<Rightarrow> string \<Rightarrow> TimelineClip \<Rightarrow> TimelineClip" where
  "firstClip splitTime newId originalClip =
     (let actualSplitTime = nullish (trimStart originalClip) 0 + splitTime
      in originalClip\<lparr>clip_id := newId, name := name originalClip @ '' (1)'',
                       trimEnd := Some actualSplitTime,
                       duration := actualSplitTime - nullish (trimStart originalClip) 0\<rparr>)"

definition secondClip :: "real \<Rightarrow> string \<Rightarrow> string \<Rightarrow> TimelineClip \<Rightarrow> TimelineClip" where
  "secondClip splitTime newId1 newId2 originalClip =
     (let actualSplitTime = nullish (trimStart originalClip) 0 + splitTime
      in originalClip\<lparr>clip_id := newId2, name := name originalClip @ '' (2)'',
                       trimStart := Some actualSplitTime,
                       duration := nullish (trimEnd originalClip) (originalDuration originalClip)
                                   - actualSplitTime,
                       startTime := startTime originalClip
                                    + duration (firstClip splitTime newId1 originalClip)\<rparr>)"

text \<open>
  The \<open>map\<close> over the tracks in \<open>splitClip\<close>. Each track that is split draws two ids, so
  the position \<open>n\<close> in the id sequence \<open>uuid\<close> is threaded through the tracks.
\<close>

fun splitClip_tracks ::
  "(nat \<Rightarrow> string) \<Rightarrow> nat \<Rightarrow> string \<Rightarrow> string \<Rightarrow> real \<Rightarrow> TimelineTrack list \<Rightarrow> TimelineTrack list"
where
  "splitClip_tracks uuid n trackId clipId splitTime [] = []"
| "splitClip_tracks uuid n trackId clipId splitTime (track # rest) =
     (if track_id track \<noteq> trackId
      then track # splitClip_tracks uuid n trackId clipId splitTime rest
      else case findIndex (\<lambda>clip. clip_id clip = clipId) (clips track) of
             None \<Rightarrow> track # splitClip_tracks uuid n trackId clipId splitTime rest
           | Some clipIndex \<Rightarrow>
               (let originalClip = clips track ! clipIndex;
                    newClips = take clipIndex (clips track)
                               @ [firstClip splitTime (uuid n) originalClip,
                                  secondClip splitTime (uuid n) (uuid (n + 1)) originalClip]
                               @ drop (Suc clipIndex) (clips track)
                in track\<lparr>clips := newClips\<rparr>
                   # splitClip_tracks uuid (n + 2) trackId clipId splitTime rest))"

definition splitClip ::
  "(nat \<Rightarrow> string) \<Rightarrow> string \<Rightarrow> string \<Rightarrow> real \<Rightarrow> TimelineStore \<Rightarrow> TimelineStore" where
  "splitClip uuid trackId clipId splitTime state =
     updateTotalDuration
       (state\<lparr>tracks := splitClip_tracks uuid 0 trackId clipId splitTime (tracks state)\<rparr>)"

definition setPlayheadPosition :: "real \<Rightarrow> TimelineStore \<Rightarrow> TimelineStore" where
  "setPlayheadPosition position state =
     (let newPosition = max 0 position
      in if newPosition > totalDuration state - 30
         then (let extendedDuration = max (totalDuration state + 60) (newPosition + 60)
               in state\<lparr>playheadPosition := newPosition, totalDuration := extendedDuration\<rparr>)
         else state\<lparr>playheadPosition := newPosition\<rparr>)"

definition setIsPlaying :: "bool \<Rightarrow> TimelineStore \<Rightarrow> TimelineStore" where
  "setIsPlaying playing state = state\<lparr>isPlaying := playing\<rparr>"

definition updateClipStartTime ::
  "string \<Rightarrow> string \<Rightarrow> string \<Rightarrow> real \<Rightarrow> TimelineStore \<Rightarrow> TimelineStore" where
  "updateClipStartTime fromTrackId toTrackId clipId newStartTime state =
     updateTotalDuration
       (case findClip fromTrackId clipId state of
          None \<Rightarrow> state
        | Some clipToMove \<Rightarrow>
            (let updatedClip = clipToMove\<lparr>startTime := newStartTime\<rparr>
             in state\<lparr>tracks :=
                  map (\<lambda>track.
                         if track_id track = fromTrackId \<and> fromTrackId = toTrackId
                         then track\<lparr>clips :=
                                map (\<lambda>clip. if clip_id clip = clipId then updatedClip else clip)
                                    (clips track)\<rparr>
                         else if track_id track = fromTrackId
                         then track\<lparr>clips :=
                                filter (\<lambda>clip. clip_id clip \<noteq> clipId) (clips track)\<rparr>
                         else if track_id track = toTrackId
                         then track\<lparr>clips := clips track @ [updatedClip]\<rparr>
                         else track)
                      (tracks state)\<rparr>))"

definition setZoomLevel :: "real \<Rightarrow> TimelineStore \<Rightarrow> TimelineStore" where
  "setZoomLevel level state =
     (let clampedLevel = max (1 / 10) (min level 10);
          baseViewportDuration = 60;
          newViewportDuration = baseViewportDuration / clampedLevel
      in state\<lparr>zoomLevel := clampedLevel, viewportDuration := newViewportDuration,
                scrollPosition := 0\<rparr>)"

definition setScrollPosition :: "real \<Rightarrow> TimelineStore \<Rightarrow> TimelineStore" where
  "setScrollPosition position state =
     (let maxScroll = max 0 (totalDuration state - viewportDuration state);
          clampedPosition = max 0 (min position maxScroll)
      in state\<lparr>scrollPosition := clampedPosition\<rparr>)"

definition setViewportDuration :: "real \<Rightarrow> TimelineStore \<Rightarrow> TimelineStore" where
  "setViewportDuration duration' state = state\<lparr>viewportDuration := max 1 duration'\<rparr>"

definition zoomIn :: "TimelineStore \<Rightarrow> TimelineStore" where
  "zoomIn state = setZoomLevel (min (zoomLevel state * (3 / 2)) 10) state"

definition zoomOut :: "TimelineStore \<Rightarrow> TimelineStore" where
  "zoomOut state = setZoomLevel (max (zoomLevel state / (3 / 2)) (1 / 10)) state"

definition resetZoom :: "TimelineStore \<Rightarrow> TimelineStore" where
  "resetZoom state = (setZoomLevel 1 state)\<lparr>scrollPosition := 0\<rparr>"

section \<open>Reachable states\<close>

text \<open>One constructor for each action of the store, with its arguments.\<close>

datatype Action =
    AddTrack TrackType string
  | RemoveTrack string
  | AddClipToTrack string ClipData string
  | RemoveClipFromTrack string string
  | MoveClipToTrack string string string "real option"
  | ReorderClipInTrack string string real
  | TrimClip string string "real option" "real option"
  | SplitClip "nat \<Rightarrow> string" string string real
  | SetPlayheadPosition real
  | SetIsPlaying bool
  | UpdateTotalDuration
  | UpdateClipStartTime string string string real
  | SetZoomLevel real
  | SetScrollPosition real
  | SetViewportDuration real
  | ZoomIn
  | ZoomOut
  | ResetZoom

fun perform :: "Action \<Rightarrow> TimelineStore \<Rightarrow> TimelineStore" where
  "perform (AddTrack type newId) s = snd (addTrack type newId s)"
| "perform (RemoveTrack trackId) s = removeTrack trackId s"
| "perform (AddClipToTrack trackId clipData newId) s = addClipToTrack trackId clipData newId s"
| "perform (RemoveClipFromTrack trackId clipId) s = removeClipFromTrack trackId clipId s"
| "perform (MoveClipToTrack fromId toId clipId insertIndex) s =
     moveClipToTrack fromId toId clipId insertIndex s"
| "perform (ReorderClipInTrack trackId clipId newIndex) s =
     reorderClipInTrack trackId clipId newIndex s"
| "perform (TrimClip trackId clipId ts te) s = trimClip trackId clipId ts te s"
| "perform (SplitClip uuid trackId clipId splitTime) s = splitClip uuid trackId clipId splitTime s"
| "perform (SetPlayheadPosition position) s = setPlayheadPosition position s"
| "perform (SetIsPlaying playing) s = setIsPlaying playing s"
| "perform UpdateTotalDuration s = updateTotalDuration s"
| "perform (UpdateClipStartTime fromId toId clipId newStartTime) s =
     updateClipStartTime fromId toId clipId newStartTime s"
| "perform (SetZoomLevel level) s = setZoomLevel level s"
| "perform (SetScrollPosition position) s = setScrollPosition position s"
| "perform (SetViewportDuration d) s = setViewportDuration d s"
| "perform ZoomIn s = zoomIn s"
| "perform ZoomOut s = zoomOut s"
| "perform ResetZoom s = resetZoom s"

text \<open>The states the store can be in: the initial one, and any state after an action.\<close>

inductive reachable :: "TimelineStore \<Rightarrow> bool" where
  reachable_init: "reachable initialState"
| reachable_step: "reachable s \<Longrightarrow> reachable (perform a s)"

section \<open>Active clip at the playhead\<close>

fun getActiveClip_clips ::
  "MediaItem list \<Rightarrow> real \<Rightarrow> TimelineClip list \<Rightarrow> (TimelineClip \<times> MediaItem) option" where
  "getActiveClip_clips mediaItems playhead [] = None"
| "getActiveClip_clips mediaItems playhead (clip # rest) =
     (let clipStart = startTime clip; clipEnd = startTime clip + duration clip
      in if playhead \<ge> clipStart \<and> playhead < clipEnd
         then (case find (\<lambda>item. item_id item = mediaId clip) mediaItems of
                 Some mediaItem \<Rightarrow> Some (clip, mediaItem)
               | None \<Rightarrow> getActiveClip_clips mediaItems playhead rest)
         else getActiveClip_clips mediaItems playhead rest)"

fun getActiveClip_tracks ::
  "MediaItem list \<Rightarrow> real \<Rightarrow> TimelineTrack list \<Rightarrow> (TimelineClip \<times> MediaItem) option" where
  "getActiveClip_tracks mediaItems playhead [] = None"
| "getActiveClip_tracks mediaItems playhead (track # rest) =
     (case getActiveClip_clips mediaItems playhead (clips track) of
        Some found \<Rightarrow> Some found
      | None \<Rightarrow> getActiveClip_tracks mediaItems playhead rest)"

definition getActiveClip ::
  "MediaItem list \<Rightarrow> TimelineStore \<Rightarrow> (TimelineClip \<times> MediaItem) option" where
  "getActiveClip mediaItems state =
     getActiveClip_tracks mediaItems (playheadPosition state) (tracks state)"

section \<open>Predicates of the specification\<close>

text \<open>All clips of a state, track by track, each track's clips in list order.\<close>

definition allClips :: "TimelineStore \<Rightarrow> TimelineClip list" where
  "allClips state = concat (map clips (tracks state))"

definition clipEnd :: "TimelineClip \<Rightarrow> real" where
  "clipEnd clip = startTime clip + duration clip"

text \<open>
  What every clip of a reachable state satisfies: both trim points are set and the duration
  is their difference.
\<close>

definition clipWellFormed :: "TimelineClip \<Rightarrow> bool" where
  "clipWellFormed clip =
     (case (trimStart clip, trimEnd clip) of
        (Some ts, Some te) \<Rightarrow> duration clip = te - ts
      | _ \<Rightarrow> False)"

text \<open>
  The trim invariant of the specification, with the defaults the store itself uses for a
  trim point that is not set.
\<close>

definition trimInvariant :: "TimelineClip \<Rightarrow> bool" where
  "trimInvariant clip =
     (let ts = nullish (trimStart clip) 0;
          te = nullish (trimEnd clip) (originalDuration clip)
      in 0 \<le> ts \<and> ts < te \<and> te \<le> originalDuration clip \<and> 1 / 10 \<le> te - ts
         \<and> duration clip = te - ts)"

text \<open>The total duration reaches the end of every clip.\<close>

definition durationCovers :: "TimelineStore \<Rightarrow> bool" where
  "durationCovers s = (\<forall>c \<in> set (allClips s). clipEnd c \<le> totalDuration s)"

text \<open>The actions whose last step is \<open>get().updateTotalDuration()\<close>.\<close>

fun recomputesDuration :: "Action \<Rightarrow> bool" where
  "recomputesDuration (AddClipToTrack _ _ _) = True"
| "recomputesDuration (RemoveClipFromTrack _ _) = True"
| "recomputesDuration (MoveClipToTrack _ _ _ _) = True"
| "recomputesDuration (ReorderClipInTrack _ _ _) = True"
| "recomputesDuration (TrimClip _ _ _ _) = True"
| "recomputesDuration (SplitClip _ _ _ _) = True"
| "recomputesDuration UpdateTotalDuration = True"
| "recomputesDuration (UpdateClipStartTime _ _ _ _) = True"
| "recomputesDuration _ = False"

text \<open>
  The calls that cannot move a clip before time 0, as a condition on the arguments and on
  the state before the call: a start time that is not negative; a head trim of clips
  whose \<open>trimStart\<close> so far is at most their \<open>startTime\<close>, or a trim without a
  \<open>trimStart\<close> argument; a split offset that is not negative.
\<close>

fun keepsStartTimes :: "Action \<Rightarrow> TimelineStore \<Rightarrow> bool" where
  "keepsStartTimes (UpdateClipStartTime _ _ _ newStartTime) s = (0 \<le> newStartTime)"
| "keepsStartTimes (TrimClip trackId clipId ts te) s =
     (ts = None \<or>
      (\<forall>track \<in> set (tracks s). track_id track = trackId \<longrightarrow>
         (\<forall>clip \<in> set (clips track). clip_id clip = clipId \<longrightarrow>
            nullish (trimStart clip) 0 \<le> startTime clip)))"
| "keepsStartTimes (SplitClip _ _ _ splitTime) s = (0 \<le> splitTime)"
| "keepsStartTimes _ s = True"

definition startTimesNonneg :: "TimelineStore \<Rightarrow> bool" where
  "startTimesNonneg s = (\<forall>c \<in> set (allClips s). 0 \<le> startTime c)"

definition scrollInRange :: "TimelineStore \<Rightarrow> bool" where
  "scrollInRange s =
     (0 \<le> scrollPosition s
      \<and> scrollPosition s \<le> max 0 (totalDuration s - viewportDuration s))"

text \<open>The two conditions of the active-clip lookup.\<close>

definition atPlayhead :: "real \<Rightarrow> TimelineClip \<Rightarrow> bool" where
  "atPlayhead playhead clip =
     (startTime clip \<le> playhead \<and> playhead < startTime clip + duration clip)"

definition mediaOf :: "MediaItem list \<Rightarrow> TimelineClip \<Rightarrow> MediaItem option" where
  "mediaOf mediaItems clip = find (\<lambda>item. item_id item = mediaId clip) mediaItems"

text \<open>
  The lookup in the words of the specification: the first clip, in scan order, that is at
  the playhead and whose media item is in the registry, with that item.
\<close>

definition firstActive ::
  "MediaItem list \<Rightarrow> real \<Rightarrow> TimelineClip list \<Rightarrow> (TimelineClip \<times> MediaItem) option" where
  "firstActive mediaItems playhead cs =
     (case find (\<lambda>clip. atPlayhead playhead clip \<and> mediaOf mediaItems clip \<noteq> None) cs of
        None \<Rightarrow> None
      | Some clip \<Rightarrow> map_option (Pair clip) (mediaOf mediaItems clip))"

section \<open>Example states\<close>

text \<open>
  A ten-second clip dropped on a new video track: the track then holds the one clip
  \<open>{startTime: 0, originalDuration: 10, trimStart: 0, trimEnd: 10}\<close>.
\<close>

definition exampleClipData :: ClipData where
  "exampleClipData =
     \<lparr>mediaId = ''m1'', name = ''clip'', duration = 10, trimStart = None, trimEnd = None,
      originalDuration = 10, startTime = 0\<rparr>"

definition exampleState :: TimelineStore where
  "exampleState =
     addClipToTrack ''t1'' exampleClipData ''c1'' (snd (addTrack Video ''t1'' initialState))"

text \<open>
  Two clips of 5 and 3 seconds added to an empty track, the first with the start time hint
  7; and the example clip dragged to the start time -20.
\<close>

definition twoAdds :: TimelineStore where
  "twoAdds =
     addClipToTrack ''t1'' (exampleClipData\<lparr>duration := 3\<rparr>) ''c2''
       (addClipToTrack ''t1'' (exampleClipData\<lparr>duration := 5, startTime := 7\<rparr>) ''c1''
          (snd (addTrack Video ''t1'' initialState)))"

definition movedState :: TimelineStore where
  "movedState = updateClipStartTime ''t1'' ''t1'' ''c1'' (- 20) exampleState"

text \<open>
  The example clip with its head trimmed to 5, dragged back to the start time 0, and its
  head trimmed back to 0.
\<close>

definition trimmedBack :: TimelineStore where
  "trimmedBack =
     trimClip ''t1'' ''c1'' (Some 0) None
       (updateClipStartTime ''t1'' ''t1'' ''c1'' 0
          (trimClip ''t1'' ''c1'' (Some 5) None exampleState))"

text \<open>
  The example state scrolled to 240, then shown in a viewport of 120 seconds; and the
  example state with a second clip of 1000 seconds, scrolled to 900, the long clip then
  removed.
\<close>

definition scrolledThenWidened :: TimelineStore where
  "scrolledThenWidened = setViewportDuration 120 (setScrollPosition 240 exampleState)"

definition scrolledThenShrunk :: TimelineStore where
  "scrolledThenShrunk =
     removeClipFromTrack ''t1'' ''c2''
       (setScrollPosition 900
          (addClipToTrack ''t1'' (exampleClipData\<lparr>duration := 1000\<rparr>) ''c2'' exampleState))"

definition exampleUuid :: "nat \<Rightarrow> string" where
  "exampleUuid n = (if n = 0 then ''u0'' else if n = 1 then ''u1'' else ''u2'')"

definition exampleMedia :: "MediaItem list" where
  "exampleMedia =
     [\<lparr>item_id = ''m1'', item_type = MediaVideo, item_url = ''blob:m1'', item_duration = 10,
       item_thumbnailUrl = None, item_name = ''clip''\<rparr>]"

section \<open>Auxiliary facts\<close>

subsection \<open>Folds with \<open>Math.max\<close>\<close>

lemma foldl_max_eq_Max:
  fixes f :: "'a \<Rightarrow> real"
  shows "foldl (\<lambda>m x. max m (f x)) a xs = Max (insert a (f ` set xs))"
proof (induction xs arbitrary: a)
  case Nil
  then show ?case by simp
next
  case (Cons x xs)
  have "Max (insert (max a (f x)) (f ` set xs)) = Max (insert a (insert (f x) (f ` set xs)))"
    by (cases "f ` set xs = {}") (simp_all add: max.assoc)
  with Cons show ?case by simp
qed

lemma clipsEnd_Max: "clipsEnd cs = Max (insert 0 (clipEnd ` set cs))"
  unfolding clipsEnd_def clipEnd_def by (rule foldl_max_eq_Max)

lemma clipsEnd_nonneg: "0 \<le> clipsEnd cs"
  by (simp add: clipsEnd_Max)

lemma clipsEnd_ge: "c \<in> set cs \<Longrightarrow> clipEnd c \<le> clipsEnd cs"
  by (simp add: clipsEnd_Max)

lemma in_allClips:
  "c \<in> set (allClips s) \<longleftrightarrow> (\<exists>track \<in> set (tracks s). c \<in> set (clips track))"
  by (auto simp: allClips_def)

lemma in_allClipsI: "track \<in> set (tracks s) \<Longrightarrow> c \<in> set (clips track) \<Longrightarrow> c \<in> set (allClips s)"
  by (auto simp: allClips_def)

lemma in_allClipsE:
  assumes "c \<in> set (allClips s)"
  obtains track where "track \<in> set (tracks s)" and "c \<in> set (clips track)"
  using assms by (auto simp: allClips_def)

lemma find_None_all: "\<forall>x \<in> set xs. \<not> P x \<Longrightarrow> find P xs = None"
  by (induction xs) auto

lemma find_first: "\<forall>x \<in> set pre. \<not> P x \<Longrightarrow> P c \<Longrightarrow> find P (pre @ c # post) = Some c"
  by (induction pre) auto

lemma map_unchanged: "(\<And>x. x \<in> set xs \<Longrightarrow> f x = x) \<Longrightarrow> map f xs = xs"
  by (induction xs) auto

lemma find_Some_set: "find P xs = Some x \<Longrightarrow> x \<in> set xs \<and> P x"
  by (induction xs) (auto split: if_splits)

lemma tracks_updateTotalDuration [simp]: "tracks (updateTotalDuration s) = tracks s"
  by (simp add: updateTotalDuration_def)

lemma allClips_updateTotalDuration [simp]: "allClips (updateTotalDuration s) = allClips s"
  by (simp add: allClips_def)

lemma totalDuration_updateTotalDuration:
  "totalDuration (updateTotalDuration s)
     = max (Max (insert 0 ((\<lambda>track. clipsEnd (clips track)) ` set (tracks s)))) 300"
  by (simp add: updateTotalDuration_def foldl_max_eq_Max)

lemma updateTotalDuration_ge_300: "300 \<le> totalDuration (updateTotalDuration s)"
  by (simp add: updateTotalDuration_def)

lemma updateTotalDuration_ge_clipEnd:
  assumes "c \<in> set (allClips s)"
  shows "clipEnd c \<le> totalDuration (updateTotalDuration s)"
proof -
  from assms obtain track where t: "track \<in> set (tracks s)" and c: "c \<in> set (clips track)"
    by (auto simp: in_allClips)
  have "clipEnd c \<le> clipsEnd (clips track)" using c by (rule clipsEnd_ge)
  also have "\<dots> \<le> Max (insert 0 ((\<lambda>track. clipsEnd (clips track)) ` set (tracks s)))"
    using t by simp
  finally show ?thesis by (simp add: totalDuration_updateTotalDuration)
qed

subsection \<open>Array lookups and splices\<close>

lemma findIndex_Some:
  "findIndex P xs = Some i \<Longrightarrow> i < length xs \<and> P (xs ! i) \<and> (\<forall>x \<in> set (take i xs). \<not> P x)"
proof (induction xs arbitrary: i)
  case Nil
  then show ?case by simp
next
  case (Cons x xs)
  then show ?case by (cases i) (auto split: if_splits)
qed

lemma findIndex_None: "findIndex P xs = None \<longleftrightarrow> (\<forall>x \<in> set xs. \<not> P x)"
  by (induction xs) auto

lemma findIndex_append:
  "\<forall>x \<in> set pre. \<not> P x \<Longrightarrow> P c \<Longrightarrow> findIndex P (pre @ c # post) = Some (length pre)"
  by (induction pre) auto

lemma findClip_in_allClips: "findClip tid cid s = Some c \<Longrightarrow> c \<in> set (allClips s)"
  by (auto simp: findClip_def split: option.splits dest!: find_Some_set intro: in_allClipsI)

lemma set_splice_insert: "set (splice_insert i x xs) = insert x (set xs)"
proof -
  have "set (take n xs) \<union> set (drop n xs) = set xs" for n
    by (metis append_take_drop_id set_append)
  then show ?thesis by (auto simp: splice_insert_def Let_def)
qed

lemma set_splice_delete1: "set (splice_delete1 i xs) \<subseteq> set xs"
  by (auto simp: splice_delete1_def dest: in_set_takeD in_set_dropD)

subsection \<open>The clips of a state after each action\<close>

lemma allClips_addTrack: "allClips (snd (addTrack ty i s)) = allClips s"
  by (simp add: addTrack_def allClips_def)

lemma allClips_removeTrack: "set (allClips (removeTrack tid s)) \<subseteq> set (allClips s)"
  by (auto simp: removeTrack_def elim!: in_allClipsE intro: in_allClipsI)

lemma allClips_addClipToTrack:
  "c \<in> set (allClips (addClipToTrack tid cd i s)) \<Longrightarrow>
     c \<in> set (allClips s) \<or> (\<exists>st. 0 \<le> st \<and> c = newClip cd i st)"
  by (auto simp: addClipToTrack_def Let_def clipsEnd_nonneg elim!: in_allClipsE
      split: if_splits option.splits; blast intro: in_allClipsI)

lemma allClips_removeClipFromTrack:
  "set (allClips (removeClipFromTrack tid cid s)) \<subseteq> set (allClips s)"
  by (auto simp: removeClipFromTrack_def elim!: in_allClipsE split: if_splits;
      blast intro: in_allClipsI)

lemma allClips_moveClipToTrack:
  "set (allClips (moveClipToTrack f t cid i s)) \<subseteq> set (allClips s)"
  by (auto simp: moveClipToTrack_def set_splice_insert split: if_splits option.splits
      dest!: findClip_in_allClips elim!: in_allClipsE; blast intro: in_allClipsI)

lemma allClips_reorderClipInTrack:
  "set (allClips (reorderClipInTrack tid cid i s)) \<subseteq> set (allClips s)"
  using set_splice_delete1
  by (fastforce simp: reorderClipInTrack_def set_splice_insert split: if_splits option.splits
      dest!: findIndex_Some elim!: in_allClipsE intro: in_allClipsI)

lemma allClips_trimClip:
  "c \<in> set (allClips (trimClip tid cid a b s)) \<Longrightarrow>
     c \<in> set (allClips s) \<or> (\<exists>c0 \<in> set (allClips s). c = trimmed a b c0)"
  by (auto simp: trimClip_def split: if_splits elim!: in_allClipsE; blast intro: in_allClipsI)

lemma allClips_updateClipStartTime:
  "c \<in> set (allClips (updateClipStartTime f t cid x s)) \<Longrightarrow>
     c \<in> set (allClips s) \<or> (\<exists>c0 \<in> set (allClips s). c = c0\<lparr>startTime := x\<rparr>)"
  by (auto simp: updateClipStartTime_def Let_def split: if_splits option.splits
      dest!: findClip_in_allClips elim!: in_allClipsE; blast intro: in_allClipsI)

lemma splitClip_tracks_clips:
  "track \<in> set (splitClip_tracks uuid n tid cid t trs) \<Longrightarrow> c \<in> set (clips track) \<Longrightarrow>
     \<exists>track0 \<in> set trs. c \<in> set (clips track0)
        \<or> (\<exists>c0 \<in> set (clips track0). \<exists>i j. c = firstClip t i c0 \<or> c = secondClip t i j c0)"
proof (induction trs arbitrary: n)
  case Nil
  then show ?case by simp
next
  case (Cons a trs)
  show ?case
  proof (cases "track_id a \<noteq> tid \<or> findIndex (\<lambda>clip. clip_id clip = cid) (clips a) = None")
    case True
    with Cons.prems have "track = a \<or> track \<in> set (splitClip_tracks uuid n tid cid t trs)"
      by (auto split: if_splits)
    then show ?thesis using Cons.IH[of n] Cons.prems(2) by auto
  next
    case False
    then obtain k where k: "findIndex (\<lambda>clip. clip_id clip = cid) (clips a) = Some k" and a: "track_id a = tid"
      by auto
    from findIndex_Some[OF k] have kl: "k < length (clips a)" by simp
    from Cons.prems(1) k a have
      "track = a\<lparr>clips := take k (clips a) @ [firstClip t (uuid n) (clips a ! k),
               secondClip t (uuid n) (uuid (n + 1)) (clips a ! k)] @ drop (Suc k) (clips a)\<rparr>
       \<or> track \<in> set (splitClip_tracks uuid (n + 2) tid cid t trs)"
      by (auto simp: Let_def)
    then show ?thesis
    proof
      assume "track \<in> set (splitClip_tracks uuid (n + 2) tid cid t trs)"
      then show ?thesis using Cons.IH[of "n + 2"] Cons.prems(2) by auto
    next
      assume tr: "track = a\<lparr>clips := take k (clips a) @ [firstClip t (uuid n) (clips a ! k),
               secondClip t (uuid n) (uuid (n + 1)) (clips a ! k)] @ drop (Suc k) (clips a)\<rparr>"
      have "clips a ! k \<in> set (clips a)" using kl by simp
      with tr Cons.prems(2) show ?thesis
        by (auto dest: in_set_takeD in_set_dropD)
    qed
  qed
qed

lemma allClips_splitClip:
  "c \<in> set (allClips (splitClip uuid tid cid t s)) \<Longrightarrow>
     c \<in> set (allClips s)
     \<or> (\<exists>c0 \<in> set (allClips s). \<exists>i j. c = firstClip t i c0 \<or> c = secondClip t i j c0)"
  by (auto simp: splitClip_def elim!: in_allClipsE dest!: splitClip_tracks_clips;
      blast intro: in_allClipsI)

subsection \<open>The example state\<close>

lemma exampleState_eq:
  "exampleState =
     \<lparr>tracks = [\<lparr>track_id = ''t1'', track_name = ''Video Track'', track_type = Video,
                 clips = [\<lparr>mediaId = ''m1'', name = ''clip'', duration = 10,
                           trimStart = Some 0, trimEnd = Some 10, originalDuration = 10,
                           startTime = 0, clip_id = ''c1''\<rparr>]\<rparr>],
      playheadPosition = 0, isPlaying = False, totalDuration = 300,
      zoomLevel = 1, scrollPosition = 0, viewportDuration = 60\<rparr>"
  by (simp add: exampleState_def exampleClipData_def initialState_def addTrack_def
      addClipToTrack_def newClip_def updateTotalDuration_def clipsEnd_def)

lemma reachable_exampleState: "reachable exampleState"
proof -
  have "reachable (perform (AddTrack Video ''t1'') initialState)"
    by (rule reachable_step) (rule reachable_init)
  then have "reachable (perform (AddClipToTrack ''t1'' exampleClipData ''c1'')
                          (perform (AddTrack Video ''t1'') initialState))"
    by (rule reachable_step)
  then show ?thesis by (simp add: exampleState_def)
qed

section \<open>An invariant of the clips of every reachable state\<close>

lemma allClips_trimClip_target:
  "c \<in> set (allClips (trimClip tid cid a b s)) \<Longrightarrow>
     c \<in> set (allClips s)
     \<or> (\<exists>track \<in> set (tracks s). track_id track = tid
          \<and> (\<exists>c0 \<in> set (clips track). clip_id c0 = cid \<and> c = trimmed a b c0))"
  by (auto simp: trimClip_def split: if_splits elim!: in_allClipsE; blast intro: in_allClipsI)

lemma allClips_view:
  "allClips (setPlayheadPosition p s) = allClips s"
  "allClips (setIsPlaying b s) = allClips s"
  "allClips (setZoomLevel z s) = allClips s"
  "allClips (setScrollPosition x s) = allClips s"
  "allClips (setViewportDuration d s) = allClips s"
  "allClips (zoomIn s) = allClips s"
  "allClips (zoomOut s) = allClips s"
  "allClips (resetZoom s) = allClips s"
  by (simp_all add: allClips_def setPlayheadPosition_def setIsPlaying_def setZoomLevel_def
      setScrollPosition_def setViewportDuration_def zoomIn_def zoomOut_def resetZoom_def Let_def)

lemma perform_preserves:
  assumes inv: "\<forall>c \<in> set (allClips s). P c"
    and new: "\<And>cd i st. 0 \<le> st \<Longrightarrow> P (newClip cd i st)"
    and trim: "\<And>c x y. P c \<Longrightarrow> P (trimmed x y c)"
    and split1: "\<And>c t i. P c \<Longrightarrow> P (firstClip t i c)"
    and split2: "\<And>c t i j. P c \<Longrightarrow> P (secondClip t i j c)"
    and move: "\<And>c x. P c \<Longrightarrow> P (c\<lparr>startTime := x\<rparr>)"
  shows "\<forall>c \<in> set (allClips (perform a s)). P c"
proof (cases a)
  case (AddTrack ty i)
  then show ?thesis using inv by (simp add: allClips_addTrack)
next
  case (RemoveTrack tid)
  then show ?thesis using inv allClips_removeTrack[of tid s] by auto
next
  case (AddClipToTrack tid cd i)
  then show ?thesis using inv new by (auto dest!: allClips_addClipToTrack)
next
  case (RemoveClipFromTrack tid cid)
  then show ?thesis using inv allClips_removeClipFromTrack[of tid cid s] by auto
next
  case (MoveClipToTrack f t cid i)
  then show ?thesis using inv allClips_moveClipToTrack[of f t cid i s] by auto
next
  case (ReorderClipInTrack tid cid i)
  then show ?thesis using inv allClips_reorderClipInTrack[of tid cid i s] by auto
next
  case (TrimClip tid cid x y)
  then show ?thesis using inv trim by (auto dest!: allClips_trimClip)
next
  case (SplitClip uuid tid cid t)
  then show ?thesis using inv split1 split2 by (auto dest!: allClips_splitClip)
next
  case (UpdateClipStartTime f t cid x)
  then show ?thesis using inv move by (auto dest!: allClips_updateClipStartTime)
qed (use inv in \<open>simp_all add: allClips_view\<close>)

lemma clipWellFormed_iff:
  "clipWellFormed c \<longleftrightarrow> (\<exists>ts te. trimStart c = Some ts \<and> trimEnd c = Some te \<and> duration c = te - ts)"
  by (auto simp: clipWellFormed_def split: option.splits)

lemma reachable_clipWellFormed:
  "reachable s \<Longrightarrow> \<forall>c \<in> set (allClips s). clipWellFormed c"
proof (induction rule: reachable.induct)
  case reachable_init
  then show ?case by (simp add: initialState_def allClips_def)
next
  case (reachable_step s a)
  from reachable_step.IH show ?case
    by (rule perform_preserves)
      (auto simp: clipWellFormed_iff newClip_def trimmed_def firstClip_def secondClip_def
        Let_def nullish_def)
qed

section \<open>Splitting a clip\<close>

lemma splitClip_tracks_other:
  "\<forall>t \<in> set trs. track_id t \<noteq> tid \<Longrightarrow> splitClip_tracks uuid n tid cid x trs = trs"
  by (induction trs) auto

lemma splitClip_tracks_at:
  assumes "\<forall>t \<in> set tpre. track_id t \<noteq> track_id track"
    and "\<forall>t \<in> set tpost. track_id t \<noteq> track_id track"
    and "clips track = pre @ clip # post"
    and "\<forall>c \<in> set pre. clip_id c \<noteq> clip_id clip"
  shows "splitClip_tracks uuid n (track_id track) (clip_id clip) x (tpre @ track # tpost)
     = tpre @ track\<lparr>clips := pre @ [firstClip x (uuid n) clip,
                                       secondClip x (uuid n) (uuid (n + 1)) clip] @ post\<rparr> # tpost"
  using assms(1)
proof (induction tpre)
  case Nil
  have "findIndex (\<lambda>c. clip_id c = clip_id clip) (clips track) = Some (length pre)"
    using assms(3,4) by (simp add: findIndex_append)
  then show ?case using assms(2,3) by (simp add: splitClip_tracks_other Let_def)
next
  case (Cons a tpre)
  then show ?case by simp
qed

lemma split_pieces:
  assumes "trimStart clip = Some ts" and "trimEnd clip = Some te" and "duration clip = te - ts"
  shows "clip_id (firstClip x i clip) = i" and "clip_id (secondClip x i j clip) = j"
    and "name (firstClip x i clip) = name clip @ '' (1)''"
    and "name (secondClip x i j clip) = name clip @ '' (2)''"
    and "trimStart (firstClip x i clip) = Some ts"
    and "trimEnd (firstClip x i clip) = Some (ts + x)"
    and "trimStart (secondClip x i j clip) = Some (ts + x)"
    and "trimEnd (secondClip x i j clip) = Some te"
    and "duration (firstClip x i clip) = x"
    and "duration (secondClip x i j clip) = duration clip - x"
    and "startTime (firstClip x i clip) = startTime clip"
    and "startTime (secondClip x i j clip) = startTime (firstClip x i clip) + duration (firstClip x i clip)"
  using assms by (simp_all add: firstClip_def secondClip_def Let_def nullish_def)


text \<open>
  Claim C2. In a reachable state, let \<open>track\<close> be the only track of its id and \<open>clip\<close>
  the first clip of its id on that track, and let \<open>0 \<le> splitTime \<le> duration clip\<close>. Then
  \<open>splitClip\<close> replaces the clip, at its position in the list, by two clips that carry
  the two ids drawn from the generator and the names suffixed \<open>" (1)"\<close> and \<open>" (2)"\<close>.
  The first keeps \<open>trimStart\<close> and ends at \<open>trimStart + splitTime\<close>; the second starts
  there and keeps \<open>trimEnd\<close>, so the two trim ranges tile the original one. The durations
  are \<open>splitTime\<close> and \<open>duration - splitTime\<close>, which sum to the original duration, and
  the second clip starts on the timeline where the first one ends.
\<close>

theorem splitClip_replaces_clip:
  assumes "reachable s"
    and "tracks s = tpre @ track # tpost"
    and "\<forall>t \<in> set tpre \<union> set tpost. track_id t \<noteq> track_id track"
    and "clips track = pre @ clip # post"
    and "\<forall>c \<in> set pre. clip_id c \<noteq> clip_id clip"
    and "0 \<le> splitTime" and "splitTime \<le> duration clip"
  shows "\<exists>first second ts te.
           tracks (splitClip uuid (track_id track) (clip_id clip) splitTime s)
             = tpre @ track\<lparr>clips := pre @ [first, second] @ post\<rparr> # tpost
           \<and> clip_id first = uuid 0 \<and> clip_id second = uuid 1
           \<and> name first = name clip @ '' (1)'' \<and> name second = name clip @ '' (2)''
           \<and> trimStart clip = Some ts \<and> trimEnd clip = Some te
           \<and> trimStart first = Some ts \<and> trimEnd first = Some (ts + splitTime)
           \<and> trimStart second = Some (ts + splitTime) \<and> trimEnd second = Some te
           \<and> ts \<le> ts + splitTime \<and> ts + splitTime \<le> te
           \<and> duration first = splitTime \<and> duration second = duration clip - splitTime
           \<and> duration first + duration second = duration clip
           \<and> startTime first = startTime clip
           \<and> startTime second = startTime first + duration first"
proof -
  have "clip \<in> set (allClips s)"
    using assms(2,4) by (auto intro: in_allClipsI[of track])
  with reachable_clipWellFormed[OF assms(1)] have "clipWellFormed clip" by blast
  then obtain ts te where ts: "trimStart clip = Some ts" and te: "trimEnd clip = Some te"
    and d: "duration clip = te - ts"
    by (auto simp: clipWellFormed_iff)
  let ?first = "firstClip splitTime (uuid 0) clip"
  let ?second = "secondClip splitTime (uuid 0) (uuid 1) clip"
  have "splitClip_tracks uuid 0 (track_id track) (clip_id clip) splitTime (tpre @ track # tpost)
          = tpre @ track\<lparr>clips := pre @ [?first, secondClip splitTime (uuid 0) (uuid (0 + 1)) clip] @ post\<rparr> # tpost"
    using assms(3,4,5) by (intro splitClip_tracks_at) auto
  then have tr: "tracks (splitClip uuid (track_id track) (clip_id clip) splitTime s)
          = tpre @ track\<lparr>clips := pre @ [?first, ?second] @ post\<rparr> # tpost"
    using assms(2) by (simp add: splitClip_def)
  note p = split_pieces[OF ts te d, of splitTime]
  have o: "ts \<le> ts + splitTime" "ts + splitTime \<le> te"
    using assms(6,7) d by simp_all
  show ?thesis
    by (rule exI[of _ ?first], rule exI[of _ ?second], rule exI[of _ ts], rule exI[of _ te])
      (simp add: tr ts te o p assms(6))
qed


theorem splitClip_replaces_clip_witness:
  "reachable exampleState
   \<and> map (\<lambda>c. (clip_id c, name c, trimStart c, trimEnd c, duration c, startTime c))
         (allClips (splitClip exampleUuid ''t1'' ''c1'' 4 exampleState))
       = [(''u0'', ''clip (1)'', Some 0, Some 4, 4, 0),
          (''u1'', ''clip (2)'', Some 4, Some 10, 6, 4)]"
proof -
  let ?track = "hd (tracks exampleState)" and ?clip = "hd (allClips exampleState)"
  have t: "tracks exampleState = [] @ ?track # []" and c: "clips ?track = [] @ ?clip # []"
    and i: "track_id ?track = ''t1''" "clip_id ?clip = ''c1''"
    and v: "name ?clip = ''clip''" "trimStart ?clip = Some 0" "trimEnd ?clip = Some 10"
      "duration ?clip = 10" "startTime ?clip = 0"
    by (simp_all add: exampleState_eq allClips_def)
  have "\<forall>t \<in> set [] \<union> set []. track_id t \<noteq> track_id ?track"
    and "\<forall>c \<in> set []. clip_id c \<noteq> clip_id ?clip"
    and "(0::real) \<le> 4" and "4 \<le> duration ?clip"
    using v by simp_all
  from splitClip_replaces_clip[OF reachable_exampleState t this(1) c this(2-4), of exampleUuid]
  obtain first second ts te where
    "tracks (splitClip exampleUuid ''t1'' ''c1'' 4 exampleState)
       = [?track\<lparr>clips := [first, second]\<rparr>]"
    and "clip_id first = ''u0''" "clip_id second = ''u1''"
    and "name first = ''clip (1)''" "name second = ''clip (2)''"
    and "Some 0 = Some ts" "Some 10 = Some te"
    and "trimStart first = Some ts" "trimEnd first = Some (ts + 4)"
    and "trimStart second = Some (ts + 4)" "trimEnd second = Some te"
    and "duration first = 4" "duration second = 10 - 4"
    and "startTime first = 0" "startTime second = startTime first + duration first"
    unfolding i v by (auto simp: exampleUuid_def)
  then show ?thesis
    using reachable_exampleState by (simp add: allClips_def)
qed

section \<open>Trimming: the position of the trimmed clip\<close>

lemma tracks_trimClip:
  "tracks (trimClip trackId clipId ts te s)
     = map (\<lambda>track. if track_id track \<noteq> trackId then track
                     else track\<lparr>clips := map (\<lambda>clip. if clip_id clip \<noteq> clipId then clip
                                                       else trimmed ts te clip)
                                              (clips track)\<rparr>)
           (tracks s)"
  by (simp add: trimClip_def)

lemma trimmed_Some:
  "trimStart (trimmed (Some x) te clip) = Some (max 0 (min x (originalDuration clip)))"
  "startTime (trimmed (Some x) te clip)
     = startTime clip + (max 0 (min x (originalDuration clip)) - nullish (trimStart clip) 0)"
  by (simp_all add: trimmed_def Let_def nullish_def)

lemma trimmed_None: "startTime (trimmed None te clip) = startTime clip"
  by (simp add: trimmed_def Let_def)

lemma trimClip_example:
  "allClips (trimClip ''t1'' ''c1'' (Some 2) None exampleState)
     = [\<lparr>mediaId = ''m1'', name = ''clip'', duration = 8, trimStart = Some 2,
         trimEnd = Some 10, originalDuration = 10, startTime = 2, clip_id = ''c1''\<rparr>]"
  by (simp add: exampleState_eq trimClip_def allClips_def trimmed_def Let_def nullish_def)

text \<open>
  Claim C4. \<open>trimClip\<close> replaces the clips of id \<open>clipId\<close> on the tracks of id \<open>trackId\<close>
  by their trimmed versions and leaves every other clip as it is. When the \<open>trimStart\<close>
  argument is supplied, the trimmed clip's \<open>trimStart\<close> is the clamped value
  \<open>validTrimStart\<close> and its \<open>startTime\<close> is shifted by exactly
  \<open>validTrimStart - previousTrimStart\<close>; when it is not supplied (only \<open>trimEnd\<close> may
  change), \<open>startTime\<close> is unchanged. On the example clip
  \<open>{startTime: 0, originalDuration: 10, trimStart: 0, trimEnd: 10}\<close>, trimming with
  \<open>trimStart = 2\<close> gives \<open>trimStart = 2\<close>, \<open>trimEnd = 10\<close>, \<open>duration = 8\<close>,
  \<open>startTime = 2\<close>.
\<close>

theorem trimClip_position_preservation:
  "tracks (trimClip trackId clipId ts te s)
     = map (\<lambda>track. if track_id track \<noteq> trackId then track
                     else track\<lparr>clips := map (\<lambda>clip. if clip_id clip \<noteq> clipId then clip
                                                       else trimmed ts te clip)
                                              (clips track)\<rparr>)
           (tracks s)
   \<and> trimStart (trimmed (Some x) te clip) = Some (max 0 (min x (originalDuration clip)))
   \<and> startTime (trimmed (Some x) te clip)
       = startTime clip + (max 0 (min x (originalDuration clip)) - nullish (trimStart clip) 0)
   \<and> startTime (trimmed None te clip) = startTime clip
   \<and> allClips (trimClip ''t1'' ''c1'' (Some 2) None exampleState)
       = [\<lparr>mediaId = ''m1'', name = ''clip'', duration = 8, trimStart = Some 2,
           trimEnd = Some 10, originalDuration = 10, startTime = 2, clip_id = ''c1''\<rparr>]"
  using tracks_trimClip trimmed_Some trimmed_None trimClip_example by blast

section \<open>Trimming: the trim points\<close>

lemma trimmed_id [simp]: "clip_id (trimmed a b c) = clip_id c"
  by (simp add: trimmed_def Let_def)

lemma trimmed_originalDuration [simp]: "originalDuration (trimmed a b c) = originalDuration c"
  by (simp add: trimmed_def Let_def)

lemma trimmed_bounds:
  "\<exists>ts te. trimStart (trimmed a b c) = Some ts \<and> trimEnd (trimmed a b c) = Some te
      \<and> 0 \<le> ts \<and> ts + 1 / 10 \<le> te \<and> ts < te \<and> duration (trimmed a b c) = te - ts
      \<and> (ts + 1 / 10 \<le> originalDuration c \<longrightarrow> te \<le> originalDuration c)"
proof -
  define ts where
    "ts = max 0 (min (nullish a (nullish (trimStart c) 0)) (originalDuration c))"
  define te where
    "te = max (ts + 1 / 10)
            (min (nullish b (nullish (trimEnd c) (originalDuration c))) (originalDuration c))"
  have f: "trimStart (trimmed a b c) = Some ts" "trimEnd (trimmed a b c) = Some te"
    "duration (trimmed a b c) = te - ts"
    by (simp_all add: trimmed_def Let_def ts_def te_def)
  have "0 \<le> ts" by (simp add: ts_def)
  moreover have l: "ts + 1 / 10 \<le> te" by (simp add: te_def)
  moreover from l have "ts < te" by simp
  moreover have "ts + 1 / 10 \<le> originalDuration c \<longrightarrow> te \<le> originalDuration c"
    by (simp add: te_def)
  ultimately show ?thesis using f by blast
qed

lemma trimClip_target:
  assumes "track \<in> set (tracks (trimClip trackId clipId a b s))" and "track_id track = trackId"
    and "clip \<in> set (clips track)" and "clip_id clip = clipId"
  shows "\<exists>c0 \<in> set (allClips s). clip = trimmed a b c0"
proof -
  from assms(1) obtain t0 where t0: "t0 \<in> set (tracks s)"
    and tr: "track = (if track_id t0 \<noteq> trackId then t0
                      else t0\<lparr>clips := map (\<lambda>clip. if clip_id clip \<noteq> clipId then clip
                                                     else trimmed a b clip) (clips t0)\<rparr>)"
    unfolding tracks_trimClip by auto
  from tr assms(2) have "track_id t0 = trackId" by (auto split: if_splits)
  with tr have "clips track = map (\<lambda>clip. if clip_id clip \<noteq> clipId then clip
                                     else trimmed a b clip) (clips t0)"
    by simp
  with assms(3) obtain c0 where c0: "c0 \<in> set (clips t0)"
    and c: "clip = (if clip_id c0 \<noteq> clipId then c0 else trimmed a b c0)"
    by auto
  from c assms(4) have "clip = trimmed a b c0" by (auto split: if_splits)
  with c0 t0 show ?thesis by (auto intro: in_allClipsI)
qed

text \<open>
  Claim C1, in the form that holds of the code. In every reachable state every clip has
  both trim points set and \<open>duration = trimEnd - trimStart\<close>. Immediately after
  \<open>trimClip\<close>, every clip it targets (the clips of id \<open>clipId\<close> on the tracks of id
  \<open>trackId\<close>) has \<open>0 \<le> trimStart < trimEnd\<close> and \<open>trimStart + 0.1 \<le> trimEnd\<close>, the bound
  in the form the store computes it (\<open>validTrimStart + 0.1\<close>), and
  \<open>trimEnd \<le> originalDuration\<close> holds when \<open>trimStart + 0.1 \<le> originalDuration\<close>.
\<close>

theorem trimClip_trim_invariant:
  "(reachable s
      \<longrightarrow> (\<forall>c \<in> set (allClips s).
             \<exists>ts te. trimStart c = Some ts \<and> trimEnd c = Some te \<and> duration c = te - ts))
   \<and> (track \<in> set (tracks (trimClip trackId clipId a b s)) \<and> track_id track = trackId
        \<and> clip \<in> set (clips track) \<and> clip_id clip = clipId
      \<longrightarrow> (\<exists>ts te. trimStart clip = Some ts \<and> trimEnd clip = Some te
             \<and> 0 \<le> ts \<and> ts + 1 / 10 \<le> te \<and> ts < te \<and> duration clip = te - ts
             \<and> (ts + 1 / 10 \<le> originalDuration clip \<longrightarrow> te \<le> originalDuration clip)))"
proof (intro conjI impI)
  assume "reachable s"
  then show "\<forall>c \<in> set (allClips s).
      \<exists>ts te. trimStart c = Some ts \<and> trimEnd c = Some te \<and> duration c = te - ts"
    using reachable_clipWellFormed[of s] by (simp add: clipWellFormed_iff)
next
  assume h: "track \<in> set (tracks (trimClip trackId clipId a b s)) \<and> track_id track = trackId
        \<and> clip \<in> set (clips track) \<and> clip_id clip = clipId"
  then obtain c0 where "clip = trimmed a b c0"
    using trimClip_target[of track trackId clipId a b s clip] by blast
  then show "\<exists>ts te. trimStart clip = Some ts \<and> trimEnd clip = Some te
             \<and> 0 \<le> ts \<and> ts + 1 / 10 \<le> te \<and> ts < te \<and> duration clip = te - ts
             \<and> (ts + 1 / 10 \<le> originalDuration clip \<longrightarrow> te \<le> originalDuration clip)"
    using trimmed_bounds[of a b c0] by simp
qed

theorem trimClip_trim_invariant_witness:
  "reachable exampleState
   \<and> list_all (\<lambda>c. \<exists>ts te. trimStart c = Some ts \<and> trimEnd c = Some te
                             \<and> duration c = te - ts)
         (allClips exampleState)
   \<and> hd (tracks (trimClip ''t1'' ''c1'' (Some 2) None exampleState))
       \<in> set (tracks (trimClip ''t1'' ''c1'' (Some 2) None exampleState))
   \<and> track_id (hd (tracks (trimClip ''t1'' ''c1'' (Some 2) None exampleState))) = ''t1''
   \<and> hd (allClips (trimClip ''t1'' ''c1'' (Some 2) None exampleState))
       \<in> set (clips (hd (tracks (trimClip ''t1'' ''c1'' (Some 2) None exampleState))))
   \<and> clip_id (hd (allClips (trimClip ''t1'' ''c1'' (Some 2) None exampleState))) = ''c1''
   \<and> (\<exists>ts te. trimStart (hd (allClips (trimClip ''t1'' ''c1'' (Some 2) None exampleState)))
                  = Some ts
         \<and> trimEnd (hd (allClips (trimClip ''t1'' ''c1'' (Some 2) None exampleState))) = Some te
         \<and> 0 \<le> ts \<and> ts + 1 / 10 \<le> te \<and> ts < te \<and> te \<le> 10
         \<and> duration (hd (allClips (trimClip ''t1'' ''c1'' (Some 2) None exampleState)))
             = te - ts)"
proof -
  let ?s = "trimClip ''t1'' ''c1'' (Some 2) None exampleState"
  have h: "hd (tracks ?s) \<in> set (tracks ?s)" "track_id (hd (tracks ?s)) = ''t1''"
    "hd (allClips ?s) \<in> set (clips (hd (tracks ?s)))" "clip_id (hd (allClips ?s)) = ''c1''"
    and o: "originalDuration (hd (allClips ?s)) = 10"
    by (simp_all add: trimClip_example allClips_def[symmetric])
      (simp_all add: tracks_trimClip exampleState_eq allClips_def trimmed_def Let_def
        nullish_def)
  note t = trimClip_trim_invariant[where s = exampleState and track = "hd (tracks ?s)"
      and trackId = "''t1''" and clipId = "''c1''" and a = "Some 2" and b = None
      and clip = "hd (allClips ?s)"]
  from t reachable_exampleState
  have w: "list_all (\<lambda>c. \<exists>ts te. trimStart c = Some ts \<and> trimEnd c = Some te
                                  \<and> duration c = te - ts) (allClips exampleState)"
    unfolding list_all_iff by blast
  from t h obtain ts te where
    "trimStart (hd (allClips ?s)) = Some ts" "trimEnd (hd (allClips ?s)) = Some te"
    "0 \<le> ts" "ts + 1 / 10 \<le> te" "ts < te" "duration (hd (allClips ?s)) = te - ts"
    "ts + 1 / 10 \<le> 10 \<longrightarrow> te \<le> 10"
    unfolding o by blast
  moreover from this have "ts = 2" by (simp add: trimClip_example)
  ultimately have "\<exists>ts te. trimStart (hd (allClips ?s)) = Some ts
         \<and> trimEnd (hd (allClips ?s)) = Some te
         \<and> 0 \<le> ts \<and> ts + 1 / 10 \<le> te \<and> ts < te \<and> te \<le> 10
         \<and> duration (hd (allClips ?s)) = te - ts"
    by auto
  with reachable_exampleState w h show ?thesis by blast
qed

text \<open>
  The invariant as the specification states it fails on two reachable states. Trimming the
  head of the example clip to \<open>trimStart = 10\<close>, its \<open>originalDuration\<close>, leaves
  \<open>trimEnd = 10.1\<close>, beyond \<open>originalDuration\<close>: the lower bound \<open>validTrimStart + 0.1\<close>
  wins over the upper bound. Splitting the example clip at offset 0 leaves a first piece
  with \<open>trimStart = trimEnd = 0\<close> and duration 0: \<open>splitClip\<close> clamps nothing.
\<close>

theorem trim_invariant_counterexample:
  "reachable (trimClip ''t1'' ''c1'' (Some 10) None exampleState)
   \<and> map (\<lambda>c. (trimStart c, trimEnd c, originalDuration c))
         (allClips (trimClip ''t1'' ''c1'' (Some 10) None exampleState))
       = [(Some 10, Some (101 / 10), 10)]
   \<and> \<not> list_all trimInvariant (allClips (trimClip ''t1'' ''c1'' (Some 10) None exampleState))
   \<and> reachable (splitClip exampleUuid ''t1'' ''c1'' 0 exampleState)
   \<and> map (\<lambda>c. (trimStart c, trimEnd c, duration c))
         (allClips (splitClip exampleUuid ''t1'' ''c1'' 0 exampleState))
       = [(Some 0, Some 0, 0), (Some 0, Some 10, 10)]
   \<and> \<not> list_all trimInvariant (allClips (splitClip exampleUuid ''t1'' ''c1'' 0 exampleState))"
proof -
  have "reachable (perform (TrimClip ''t1'' ''c1'' (Some 10) None) exampleState)"
    and "reachable (perform (SplitClip exampleUuid ''t1'' ''c1'' 0) exampleState)"
    by (rule reachable_step, rule reachable_exampleState)+
  moreover have "allClips (trimClip ''t1'' ''c1'' (Some 10) None exampleState)
      = [\<lparr>mediaId = ''m1'', name = ''clip'', duration = 1 / 10, trimStart = Some 10,
          trimEnd = Some (101 / 10), originalDuration = 10, startTime = 10,
          clip_id = ''c1''\<rparr>]"
    by (simp add: exampleState_eq trimClip_def allClips_def trimmed_def Let_def nullish_def)
  moreover have "allClips (splitClip exampleUuid ''t1'' ''c1'' 0 exampleState)
      = [\<lparr>mediaId = ''m1'', name = ''clip (1)'', duration = 0, trimStart = Some 0,
          trimEnd = Some 0, originalDuration = 10, startTime = 0, clip_id = ''u0''\<rparr>,
         \<lparr>mediaId = ''m1'', name = ''clip (2)'', duration = 10, trimStart = Some 0,
          trimEnd = Some 10, originalDuration = 10, startTime = 0, clip_id = ''u1''\<rparr>]"
    by (simp add: exampleState_eq splitClip_def allClips_def firstClip_def secondClip_def
        Let_def nullish_def exampleUuid_def)
  ultimately show ?thesis
    by (simp add: trimInvariant_def Let_def nullish_def)
qed

section \<open>Operations on ids that do not exist\<close>

lemma findClip_None_track:
  "\<forall>t \<in> set (tracks s). track_id t \<noteq> tid \<Longrightarrow> findClip tid cid s = None"
  by (simp add: findClip_def find_None_all)

lemma findClip_None_clip:
  assumes that: "\<forall>c \<in> set (allClips s). clip_id c \<noteq> cid"
  shows "findClip tid cid s = None"
proof (cases "find (\<lambda>track. track_id track = tid) (tracks s)")
  case None
  then show ?thesis by (simp add: findClip_def)
next
  case (Some t)
  then have "t \<in> set (tracks s)" by (auto dest: find_Some_set)
  with that have "\<forall>c \<in> set (clips t). \<not> clip_id c = cid"
    by (auto intro: in_allClipsI)
  then have "find (\<lambda>clip. clip_id clip = cid) (clips t) = None" by (rule find_None_all)
  with Some show ?thesis by (simp add: findClip_def)
qed

lemma missing_track_tracks:
  assumes "\<forall>t \<in> set (tracks s). track_id t \<noteq> trackId"
  shows "tracks (removeTrack trackId s) = tracks s"
    and "tracks (addClipToTrack trackId cd i s) = tracks s"
    and "tracks (removeClipFromTrack trackId cid s) = tracks s"
    and "tracks (moveClipToTrack trackId toId cid ix s) = tracks s"
    and "tracks (reorderClipInTrack trackId cid n s) = tracks s"
    and "tracks (trimClip trackId cid a b s) = tracks s"
    and "tracks (splitClip uuid trackId cid x s) = tracks s"
    and "tracks (updateClipStartTime trackId toId cid y s) = tracks s"
  using assms
  by (simp_all add: removeTrack_def addClipToTrack_def removeClipFromTrack_def
      moveClipToTrack_def reorderClipInTrack_def trimClip_def splitClip_def
      updateClipStartTime_def findClip_None_track splitClip_tracks_other map_unchanged Let_def)

lemma splitClip_tracks_no_clip:
  "\<forall>t \<in> set trs. \<forall>c \<in> set (clips t). clip_id c \<noteq> cid \<Longrightarrow> splitClip_tracks uuid n tid cid x trs = trs"
  by (induction trs) (auto simp: findIndex_None[THEN iffD2] split: option.splits)

lemma missing_clip_tracks:
  assumes "\<forall>c \<in> set (allClips s). clip_id c \<noteq> clipId"
  shows "tracks (removeClipFromTrack tid clipId s) = tracks s"
    and "tracks (moveClipToTrack tid toId clipId ix s) = tracks s"
    and "tracks (reorderClipInTrack tid clipId n s) = tracks s"
    and "tracks (trimClip tid clipId a b s) = tracks s"
    and "tracks (splitClip uuid tid clipId x s) = tracks s"
    and "tracks (updateClipStartTime tid toId clipId y s) = tracks s"
proof -
  have a: "\<forall>t \<in> set (tracks s). \<forall>c \<in> set (clips t). clip_id c \<noteq> clipId"
    using assms by (auto simp: in_allClips)
  then have f: "\<And>t. t \<in> set (tracks s) \<Longrightarrow> filter (\<lambda>c. clip_id c \<noteq> clipId) (clips t) = clips t"
    and g: "\<And>t. t \<in> set (tracks s) \<Longrightarrow> findIndex (\<lambda>c. clip_id c = clipId) (clips t) = None"
    and h: "\<And>t. t \<in> set (tracks s) \<Longrightarrow> map (\<lambda>c. if clip_id c \<noteq> clipId then c else trimmed a b c) (clips t) = clips t"
    by (auto simp: findIndex_None intro!: map_unchanged)
  show "tracks (removeClipFromTrack tid clipId s) = tracks s"
    by (simp add: removeClipFromTrack_def f map_unchanged)
  show "tracks (moveClipToTrack tid toId clipId ix s) = tracks s"
    by (simp add: moveClipToTrack_def findClip_None_clip[OF assms])
  show "tracks (reorderClipInTrack tid clipId n s) = tracks s"
    by (simp add: reorderClipInTrack_def g map_unchanged)
  show "tracks (trimClip tid clipId a b s) = tracks s"
    by (simp add: trimClip_def h map_unchanged)
  show "tracks (splitClip uuid tid clipId x s) = tracks s"
    using a by (simp add: splitClip_def splitClip_tracks_no_clip)
  show "tracks (updateClipStartTime tid toId clipId y s) = tracks s"
    by (simp add: updateClipStartTime_def findClip_None_clip[OF assms])
qed

text \<open>
  Claim C3. An operation given a track id that no track has, or a clip id that no clip
  has, leaves all tracks and clips as they are (\<open>missing_track_tracks\<close>,
  \<open>missing_clip_tracks\<close>), with one exception. When the source track and the clip exist
  and only the destination track id does not, \<open>moveClipToTrack\<close> and
  \<open>updateClipStartTime\<close> remove the clip from its source track and insert it nowhere: on
  the example state, whose only track is \<open>t1\<close> with the clip \<open>c1\<close>, moving \<open>c1\<close> to the
  track \<open>t9\<close> leaves no clip at all.
\<close>

theorem missing_destination_loses_clip:
  "map track_id (tracks exampleState) = [''t1'']
   \<and> map clip_id (allClips exampleState) = [''c1'']
   \<and> allClips (moveClipToTrack ''t1'' ''t9'' ''c1'' None exampleState) = []
   \<and> allClips (updateClipStartTime ''t1'' ''t9'' ''c1'' 3 exampleState) = []
   \<and> tracks (moveClipToTrack ''t1'' ''t9'' ''c1'' None exampleState) \<noteq> tracks exampleState
   \<and> tracks (updateClipStartTime ''t1'' ''t9'' ''c1'' 3 exampleState) \<noteq> tracks exampleState"
  by (simp add: exampleState_eq moveClipToTrack_def updateClipStartTime_def findClip_def
      allClips_def Let_def)

section \<open>Adding a clip\<close>

lemma addClipToTrack_tracks:
  assumes "tracks s = tpre @ track # tpost"
    and "\<forall>t \<in> set tpre \<union> set tpost. track_id t \<noteq> track_id track"
  shows "tracks (addClipToTrack (track_id track) clipData newId s)
     = tpre @ track\<lparr>clips := clips track @ [newClip clipData newId (clipsEnd (clips track))]\<rparr>
         # tpost"
proof -
  have "find (\<lambda>t. track_id t = track_id track) (tpre @ track # tpost) = Some track"
    using assms(2) by (intro find_first) auto
  moreover have "map (\<lambda>t. if track_id t = track_id track then f t else t) tpre = tpre"
    and "map (\<lambda>t. if track_id t = track_id track then f t else t) tpost = tpost" for f
    using assms(2) by (auto intro!: map_unchanged)
  ultimately show ?thesis
    using assms(1) by (simp add: addClipToTrack_def Let_def)
qed

lemma Max_clipEnd_nonneg:
  assumes "\<exists>c \<in> set cs. 0 \<le> clipEnd c"
  shows "Max (insert 0 (clipEnd ` set cs)) = Max (clipEnd ` set cs)"
proof -
  from assms obtain c where c: "c \<in> set cs" "0 \<le> clipEnd c" by blast
  then have ne: "clipEnd ` set cs \<noteq> {}" by auto
  have "0 \<le> Max (clipEnd ` set cs)"
    using c by (meson List.finite_set Max_ge finite_imageI imageI order_trans)
  then show ?thesis using ne by (simp add: max_def)
qed

lemma addClipToTrack_missing:
  assumes "\<forall>t \<in> set (tracks s). track_id t \<noteq> trackId"
  shows "addClipToTrack trackId clipData newId s = updateTotalDuration s"
  using assms by (simp add: addClipToTrack_def Let_def map_unchanged)

lemma twoAdds_startTimes: "map (\<lambda>c. (clip_id c, duration c, startTime c)) (allClips twoAdds) = [(''c1'', 5, 0), (''c2'', 3, 5)]"
  by (simp add: twoAdds_def exampleClipData_def initialState_def addTrack_def
      addClipToTrack_def newClip_def updateTotalDuration_def clipsEnd_def allClips_def)


lemma movedState_eq:
  "movedState =
     \<lparr>tracks = [\<lparr>track_id = ''t1'', track_name = ''Video Track'', track_type = Video,
                 clips = [\<lparr>mediaId = ''m1'', name = ''clip'', duration = 10,
                           trimStart = Some 0, trimEnd = Some 10, originalDuration = 10,
                           startTime = - 20, clip_id = ''c1''\<rparr>]\<rparr>],
      playheadPosition = 0, isPlaying = False, totalDuration = 300,
      zoomLevel = 1, scrollPosition = 0, viewportDuration = 60\<rparr>"
  by (simp add: movedState_def exampleState_eq updateClipStartTime_def findClip_def
      updateTotalDuration_def clipsEnd_def Let_def)

lemma reachable_movedState: "reachable movedState"
proof -
  have "reachable (perform (UpdateClipStartTime ''t1'' ''t1'' ''c1'' (- 20)) exampleState)"
    by (rule reachable_step) (rule reachable_exampleState)
  then show ?thesis by (simp add: movedState_def)
qed

text \<open>
  Claim C5, in the form that holds of the code. On the only track of a given id,
  \<open>addClipToTrack\<close> appends one new clip whose \<open>startTime\<close> is the maximum of 0 and the
  ends \<open>startTime + duration\<close> of the clips already on the track, whatever start time the
  caller supplied: 0 on an empty track, and the latest end as soon as one clip ends at or
  after 0. The new clip has \<open>trimStart = 0\<close>, \<open>trimEnd = duration\<close> and the id drawn. Two
  consecutive adds of clips of 5 and 3 seconds on an empty track give the start times 0
  and 5. If no track has the id, no track and no clip changes: the call does what
  \<open>updateTotalDuration\<close> alone does.
\<close>

theorem addClipToTrack_appends:
  "(tracks s = tpre @ track # tpost
      \<and> (\<forall>t \<in> set tpre \<union> set tpost. track_id t \<noteq> track_id track)
    \<longrightarrow> tracks (addClipToTrack (track_id track) clipData newId s)
          = tpre @ track\<lparr>clips := clips track
                      @ [newClip clipData newId (Max (insert 0 (clipEnd ` set (clips track))))]\<rparr>
              # tpost)
   \<and> startTime (newClip clipData newId st) = st
   \<and> trimStart (newClip clipData newId st) = Some 0
   \<and> trimEnd (newClip clipData newId st) = Some (duration clipData)
   \<and> duration (newClip clipData newId st) = duration clipData
   \<and> clip_id (newClip clipData newId st) = newId
   \<and> Max (insert 0 (clipEnd ` set [])) = 0
   \<and> ((\<exists>c \<in> set cs. 0 \<le> clipEnd c)
        \<longrightarrow> Max (insert 0 (clipEnd ` set cs)) = Max (clipEnd ` set cs))
   \<and> map (\<lambda>c. (clip_id c, duration c, startTime c)) (allClips twoAdds)
       = [(''c1'', 5, 0), (''c2'', 3, 5)]
   \<and> ((\<forall>t \<in> set (tracks s). track_id t \<noteq> trackId)
        \<longrightarrow> tracks (addClipToTrack trackId clipData newId s) = tracks s
            \<and> addClipToTrack trackId clipData newId s = updateTotalDuration s)"
  using addClipToTrack_tracks[of s tpre track tpost clipData newId]
    Max_clipEnd_nonneg[of cs] twoAdds_startTimes
    addClipToTrack_missing[of s trackId clipData newId]
  by (simp add: clipsEnd_Max newClip_def)

theorem addClipToTrack_appends_witness:
  "tracks exampleState = [] @ hd (tracks exampleState) # []
   \<and> track_id (hd (tracks exampleState)) = ''t1''
   \<and> map (\<lambda>c. (clip_id c, startTime c, trimStart c, trimEnd c))
         (allClips (addClipToTrack ''t1'' (exampleClipData\<lparr>duration := 3\<rparr>) ''c2''
            exampleState))
       = [(''c1'', 0, Some 0, Some 10), (''c2'', 10, Some 0, Some 3)]
   \<and> tracks (addClipToTrack ''t9'' exampleClipData ''c2'' exampleState) = tracks exampleState"
proof -
  let ?track = "hd (tracks exampleState)"
  have t: "tracks exampleState = [] @ ?track # []" and i: "track_id ?track = ''t1''"
    and c: "clips ?track = allClips exampleState"
    and n: "\<forall>t \<in> set (tracks exampleState). track_id t \<noteq> ''t9''"
    by (simp_all add: exampleState_eq allClips_def)
  have e: "Max (insert 0 (clipEnd ` set (allClips exampleState))) = 10"
    by (simp add: exampleState_eq allClips_def clipEnd_def)
  from addClipToTrack_appends[of exampleState "[]" ?track "[]" "exampleClipData\<lparr>duration := 3\<rparr>"
      "''c2''" 0 "[]" "''t9''"] t
  have "tracks (addClipToTrack ''t1'' (exampleClipData\<lparr>duration := 3\<rparr>) ''c2'' exampleState)
      = [?track\<lparr>clips := allClips exampleState
           @ [newClip (exampleClipData\<lparr>duration := 3\<rparr>) ''c2'' 10]\<rparr>]"
    by (simp add: i c e)
  moreover from addClipToTrack_appends[of exampleState "[]" ?track "[]" exampleClipData
      "''c2''" 0 "[]" "''t9''"] n
  have "tracks (addClipToTrack ''t9'' exampleClipData ''c2'' exampleState) = tracks exampleState"
    by blast
  ultimately show ?thesis
    using t i by (simp add: allClips_def newClip_def exampleState_eq exampleClipData_def)
qed

text \<open>
  The start time is not the maximum of the existing ends when all of them are negative:
  on the track whose only clip has been dragged to \<open>startTime = -20\<close> (end at \<open>-10\<close>), the
  new clip starts at 0.
\<close>

theorem addClipToTrack_counterexample:
  "reachable movedState
   \<and> map track_id (tracks movedState) = [''t1'']
   \<and> map clipEnd (allClips movedState) = [- 10]
   \<and> map startTime (allClips (addClipToTrack ''t1'' exampleClipData ''c2'' movedState))
       = [- 20, 0]
   \<and> startTime (last (allClips (addClipToTrack ''t1'' exampleClipData ''c2'' movedState)))
       \<noteq> Max (clipEnd ` set (allClips movedState))"
  using reachable_movedState
  by (simp add: movedState_eq addClipToTrack_def newClip_def clipsEnd_def allClips_def
      clipEnd_def Let_def)

section \<open>The total duration\<close>

lemma durationCovers_updateTotalDuration: "durationCovers (updateTotalDuration s)"
  by (simp add: durationCovers_def updateTotalDuration_ge_clipEnd)

lemma recomputes_perform:
  "recomputesDuration a \<Longrightarrow> \<exists>s'. perform a s = updateTotalDuration s'"
  by (cases a)
    (auto simp: addClipToTrack_def removeClipFromTrack_def moveClipToTrack_def
      reorderClipInTrack_def trimClip_def splitClip_def updateClipStartTime_def Let_def)

lemma totalDuration_view:
  "totalDuration (snd (addTrack ty i s)) = totalDuration s"
  "totalDuration (removeTrack tid s) = totalDuration s"
  "totalDuration (setIsPlaying b s) = totalDuration s"
  "totalDuration (setZoomLevel z s) = totalDuration s"
  "totalDuration (setScrollPosition x s) = totalDuration s"
  "totalDuration (setViewportDuration d s) = totalDuration s"
  "totalDuration (zoomIn s) = totalDuration s"
  "totalDuration (zoomOut s) = totalDuration s"
  "totalDuration (resetZoom s) = totalDuration s"
  by (simp_all add: addTrack_def removeTrack_def setIsPlaying_def setZoomLevel_def
      setScrollPosition_def setViewportDuration_def zoomIn_def zoomOut_def resetZoom_def
      Let_def)

lemma totalDuration_setPlayheadPosition:
  "totalDuration s \<le> totalDuration (setPlayheadPosition p s)"
  by (auto simp: setPlayheadPosition_def Let_def max_def)

lemma durationCovers_perform:
  assumes "durationCovers s"
  shows "durationCovers (perform a s)"
proof (cases "recomputesDuration a")
  case True
  then show ?thesis
    using recomputes_perform[of a s] durationCovers_updateTotalDuration by auto
next
  case False
  then show ?thesis
  proof (cases a)
    case (RemoveTrack tid)
    then show ?thesis
      using assms allClips_removeTrack[of tid s]
      by (auto simp: durationCovers_def totalDuration_view)
  next
    case (SetPlayheadPosition p)
    then show ?thesis
      using assms totalDuration_setPlayheadPosition[of s p]
      by (auto simp: durationCovers_def allClips_view)
  qed (use assms in \<open>auto simp: durationCovers_def totalDuration_view allClips_view allClips_addTrack\<close>)
qed

lemma reachable_durationCovers: "reachable s \<Longrightarrow> durationCovers s"
proof (induction rule: reachable.induct)
  case reachable_init
  then show ?case by (simp add: durationCovers_def initialState_def allClips_def)
next
  case (reachable_step s a)
  then show ?case by (simp add: durationCovers_perform)
qed

lemma floor_after_recompute: "recomputesDuration a \<Longrightarrow> 300 \<le> totalDuration (perform a s)"
  using recomputes_perform[of a s] updateTotalDuration_ge_300 by auto

lemma floor_kept:
  assumes "300 \<le> totalDuration s"
  shows "300 \<le> totalDuration (perform a s)"
proof (cases "recomputesDuration a")
  case True
  then show ?thesis by (rule floor_after_recompute)
next
  case False
  then show ?thesis
  proof (cases a)
    case (SetPlayheadPosition p)
    then show ?thesis using assms totalDuration_setPlayheadPosition[of s p] by simp
  qed (use assms in \<open>simp_all add: totalDuration_view\<close>)
qed


text \<open>
  Claim C6, in the form that holds of the code. In every reachable state the total
  duration is at least \<open>startTime + duration\<close> of every clip. After every action that ends
  with \<open>updateTotalDuration\<close> the total duration is at least 300 and at least the end of
  every clip, and once it is at least 300 every action keeps it so. \<open>addTrack\<close> and
  \<open>removeTrack\<close> do not recompute it: they leave the total duration as it is.
\<close>

theorem totalDuration_bounds:
  "(reachable s \<longrightarrow> (\<forall>c \<in> set (allClips s). startTime c + duration c \<le> totalDuration s))
   \<and> (recomputesDuration a
        \<longrightarrow> 300 \<le> totalDuration (perform a s)
            \<and> (\<forall>c \<in> set (allClips (perform a s)).
                  startTime c + duration c \<le> totalDuration (perform a s)))
   \<and> (300 \<le> totalDuration s \<longrightarrow> 300 \<le> totalDuration (perform a s))
   \<and> totalDuration (snd (addTrack type newId s)) = totalDuration s
   \<and> totalDuration (removeTrack trackId s) = totalDuration s"
proof -
  have "recomputesDuration a \<Longrightarrow> durationCovers (perform a s)"
    using recomputes_perform[of a s] durationCovers_updateTotalDuration by auto
  then show ?thesis
    using reachable_durationCovers[of s] floor_after_recompute[of a s] floor_kept[of s a]
    by (auto simp: durationCovers_def clipEnd_def totalDuration_view)
qed

theorem totalDuration_bounds_witness:
  "reachable exampleState
   \<and> list_all (\<lambda>c. startTime c + duration c \<le> totalDuration exampleState)
         (allClips exampleState)
   \<and> recomputesDuration (AddClipToTrack ''t1'' exampleClipData ''c1'')
   \<and> 300 \<le> totalDuration (perform (AddClipToTrack ''t1'' exampleClipData ''c1'')
                               (snd (addTrack Video ''t1'' initialState)))
   \<and> 300 \<le> totalDuration exampleState
   \<and> 300 \<le> totalDuration (perform (SetPlayheadPosition 400) exampleState)"
proof -
  have e: "300 \<le> totalDuration exampleState" by (simp add: exampleState_eq)
  from totalDuration_bounds[of exampleState "SetPlayheadPosition 400"] reachable_exampleState e
  have "\<forall>c \<in> set (allClips exampleState). startTime c + duration c \<le> totalDuration exampleState"
    and "300 \<le> totalDuration (perform (SetPlayheadPosition 400) exampleState)"
    by blast+
  moreover
  from totalDuration_bounds[of "snd (addTrack Video ''t1'' initialState)"
      "AddClipToTrack ''t1'' exampleClipData ''c1''"]
  have "300 \<le> totalDuration (perform (AddClipToTrack ''t1'' exampleClipData ''c1'')
                               (snd (addTrack Video ''t1'' initialState)))"
    by simp
  ultimately show ?thesis
    using reachable_exampleState e by (simp add: list_all_iff)
qed

text \<open>
  The floor of 300 does not hold always: the store starts with \<open>totalDuration = 0\<close>, and
  \<open>addTrack\<close> on the fresh store leaves it at 0.
\<close>

theorem totalDuration_floor_counterexample:
  "reachable initialState
   \<and> totalDuration initialState = 0
   \<and> \<not> 300 \<le> totalDuration initialState
   \<and> reachable (snd (addTrack Video ''t1'' initialState))
   \<and> totalDuration (snd (addTrack Video ''t1'' initialState)) = 0
   \<and> \<not> 300 \<le> totalDuration (snd (addTrack Video ''t1'' initialState))"
proof -
  have "reachable (perform (AddTrack Video ''t1'') initialState)"
    by (rule reachable_step) (rule reachable_init)
  then show ?thesis
    using reachable_init by (simp add: initialState_def addTrack_def)
qed

section \<open>Start times\<close>

lemma startTime_pieces:
  "startTime (firstClip t i c) = startTime c"
  "startTime (secondClip t i j c) = startTime c + t"
  by (simp_all add: firstClip_def secondClip_def Let_def)

lemma trimmed_shift_nonneg:
  "0 \<le> startTime (trimmed (Some x) te c)
     \<longleftrightarrow> nullish (trimStart c) 0 - max 0 (min x (originalDuration c)) \<le> startTime c"
  by (simp add: trimmed_Some(2)) linarith

lemma startTimesNonneg_perform:
  assumes inv: "startTimesNonneg s" and safe: "keepsStartTimes a s"
  shows "startTimesNonneg (perform a s)"
proof (cases a)
  case (AddTrack ty i)
  then show ?thesis using inv by (simp add: startTimesNonneg_def allClips_addTrack)
next
  case (RemoveTrack tid)
  then show ?thesis using inv allClips_removeTrack[of tid s] by (auto simp: startTimesNonneg_def)
next
  case (AddClipToTrack tid cd i)
  then show ?thesis using inv
    by (auto simp: startTimesNonneg_def newClip_def dest!: allClips_addClipToTrack)
next
  case (RemoveClipFromTrack tid cid)
  then show ?thesis using inv allClips_removeClipFromTrack[of tid cid s]
    by (auto simp: startTimesNonneg_def)
next
  case (MoveClipToTrack f t cid i)
  then show ?thesis using inv allClips_moveClipToTrack[of f t cid i s]
    by (auto simp: startTimesNonneg_def)
next
  case (ReorderClipInTrack tid cid i)
  then show ?thesis using inv allClips_reorderClipInTrack[of tid cid i s]
    by (auto simp: startTimesNonneg_def)
next
  case (TrimClip tid cid x y)
  have "0 \<le> startTime c" if c: "c \<in> set (allClips (trimClip tid cid x y s))" for c
  proof -
    from allClips_trimClip_target[OF c] consider
      (old) "c \<in> set (allClips s)"
      | (new) track c0 where "track \<in> set (tracks s)" "track_id track = tid"
          "c0 \<in> set (clips track)" "clip_id c0 = cid" "c = trimmed x y c0"
      by blast
    then show ?thesis
    proof cases
      case old
      then show ?thesis using inv by (simp add: startTimesNonneg_def)
    next
      case new
      have c0: "0 \<le> startTime c0"
        using inv new(1,3) by (auto simp: startTimesNonneg_def intro: in_allClipsI)
      show ?thesis
      proof (cases x)
        case None
        then show ?thesis using c0 new(5) by (simp add: trimmed_None)
      next
        case (Some v)
        with safe TrimClip new(1-4) have "nullish (trimStart c0) 0 \<le> startTime c0"
          by auto
        then show ?thesis using new(5) Some by (simp add: trimmed_shift_nonneg)
      qed
    qed
  qed
  with TrimClip show ?thesis by (simp add: startTimesNonneg_def)
next
  case (SplitClip uuid tid cid t)
  then show ?thesis using inv safe
    by (auto simp: startTimesNonneg_def startTime_pieces dest!: allClips_splitClip)
next
  case (UpdateClipStartTime f t cid x)
  then show ?thesis using inv safe
    by (auto simp: startTimesNonneg_def dest!: allClips_updateClipStartTime)
qed (use inv in \<open>simp_all add: startTimesNonneg_def allClips_view\<close>)

text \<open>
  Claim C7, in the form that holds of the code. No clip of the initial state starts before
  0, and \<open>addClipToTrack\<close> places the new clip at or after 0. Every action keeps all
  start times at or after 0 provided that \<open>updateClipStartTime\<close> is given a start time
  that is not negative, that \<open>trimClip\<close> with a \<open>trimStart\<close> argument trims only clips
  whose \<open>trimStart\<close> so far is at most their \<open>startTime\<close>, and that \<open>splitClip\<close> is given
  an offset that is not negative. A head trim moves the clip to
  \<open>startTime + (validTrimStart - previousTrimStart)\<close>, which is at or after 0 exactly when
  \<open>previousTrimStart - validTrimStart \<le> startTime\<close>; a trim without a \<open>trimStart\<close>
  argument does not move it. The store itself clamps no start time.
\<close>

theorem startTime_nonneg_preserved:
  "startTimesNonneg initialState
   \<and> (startTimesNonneg s \<and> keepsStartTimes a s \<longrightarrow> startTimesNonneg (perform a s))
   \<and> 0 \<le> startTime (newClip clipData newId (clipsEnd cs))
   \<and> (0 \<le> startTime (trimmed (Some x) te c)
        \<longleftrightarrow> nullish (trimStart c) 0 - max 0 (min x (originalDuration c)) \<le> startTime c)
   \<and> startTime (trimmed None te c) = startTime c"
  using startTimesNonneg_perform[of s a] trimmed_shift_nonneg[of x te c] trimmed_None[of te c]
  by (simp add: startTimesNonneg_def initialState_def allClips_def newClip_def clipsEnd_nonneg)

theorem startTime_nonneg_preserved_witness:
  "startTimesNonneg exampleState
   \<and> keepsStartTimes (UpdateClipStartTime ''t1'' ''t1'' ''c1'' 3) exampleState
   \<and> keepsStartTimes (TrimClip ''t1'' ''c1'' (Some 2) None) exampleState
   \<and> startTimesNonneg (perform (UpdateClipStartTime ''t1'' ''t1'' ''c1'' 3) exampleState)
   \<and> startTimesNonneg (perform (TrimClip ''t1'' ''c1'' (Some 2) None) exampleState)
   \<and> map startTime (allClips (perform (UpdateClipStartTime ''t1'' ''t1'' ''c1'' 3) exampleState))
       = [3]"
proof -
  have n: "startTimesNonneg exampleState"
    by (simp add: startTimesNonneg_def exampleState_eq allClips_def)
  have k: "keepsStartTimes (UpdateClipStartTime ''t1'' ''t1'' ''c1'' 3) exampleState"
    "keepsStartTimes (TrimClip ''t1'' ''c1'' (Some 2) None) exampleState"
    by (simp_all add: exampleState_eq nullish_def)
  have "startTimesNonneg (perform (UpdateClipStartTime ''t1'' ''t1'' ''c1'' 3) exampleState)"
    using startTime_nonneg_preserved[of exampleState "UpdateClipStartTime ''t1'' ''t1'' ''c1'' 3"]
      n k(1) by blast
  moreover
  have "startTimesNonneg (perform (TrimClip ''t1'' ''c1'' (Some 2) None) exampleState)"
    using startTime_nonneg_preserved[of exampleState "TrimClip ''t1'' ''c1'' (Some 2) None"]
      n k(2) by blast
  moreover
  have "map startTime (allClips (perform (UpdateClipStartTime ''t1'' ''t1'' ''c1'' 3) exampleState))
       = [3]"
    by (simp add: exampleState_eq updateClipStartTime_def findClip_def allClips_def Let_def)
  ultimately show ?thesis using n k by blast
qed

lemma trimmedBack_clips:
  "allClips trimmedBack
     = [\<lparr>mediaId = ''m1'', name = ''clip'', duration = 10, trimStart = Some 0,
         trimEnd = Some 10, originalDuration = 10, startTime = - 5, clip_id = ''c1''\<rparr>]"
  by (simp add: trimmedBack_def exampleState_eq trimClip_def updateClipStartTime_def
      findClip_def allClips_def trimmed_def Let_def nullish_def)

lemma reachable_trimmedBack: "reachable trimmedBack"
proof -
  have "reachable (perform (TrimClip ''t1'' ''c1'' (Some 5) None) exampleState)"
    by (rule reachable_step) (rule reachable_exampleState)
  then have "reachable (perform (UpdateClipStartTime ''t1'' ''t1'' ''c1'' 0)
                          (perform (TrimClip ''t1'' ''c1'' (Some 5) None) exampleState))"
    by (rule reachable_step)
  then have "reachable (perform (TrimClip ''t1'' ''c1'' (Some 0) None)
                          (perform (UpdateClipStartTime ''t1'' ''t1'' ''c1'' 0)
                             (perform (TrimClip ''t1'' ''c1'' (Some 5) None) exampleState)))"
    by (rule reachable_step)
  then show ?thesis by (simp add: trimmedBack_def)
qed

text \<open>
  Two reachable states with a clip before time 0: the example clip after
  \<open>updateClipStartTime\<close> with the start time \<open>-20\<close>, and the example clip whose head was
  trimmed to 5, which was dragged to 0 and whose head was then trimmed back to 0: the
  shift of \<open>-5\<close> moves it to \<open>startTime = -5\<close>.
\<close>

theorem startTime_nonneg_counterexample:
  "reachable movedState
   \<and> map startTime (allClips movedState) = [- 20]
   \<and> \<not> startTimesNonneg movedState
   \<and> reachable trimmedBack
   \<and> map startTime (allClips trimmedBack) = [- 5]
   \<and> \<not> startTimesNonneg trimmedBack"
proof -
  have m: "map startTime (allClips movedState) = [- 20]"
    by (simp add: movedState_eq allClips_def)
  have t: "map startTime (allClips trimmedBack) = [- 5]"
    by (simp add: trimmedBack_clips)
  have "\<not> startTimesNonneg movedState"
    by (simp add: startTimesNonneg_def movedState_eq allClips_def)
  moreover have "\<not> startTimesNonneg trimmedBack"
    by (simp add: startTimesNonneg_def trimmedBack_clips)
  ultimately show ?thesis
    using reachable_movedState reachable_trimmedBack m t by blast
qed

section \<open>The scroll position\<close>

lemma setScrollPosition_clamps:
  "scrollPosition (setScrollPosition x s)
     = max 0 (min x (max 0 (totalDuration s - viewportDuration s)))"
  "totalDuration (setScrollPosition x s) = totalDuration s"
  "viewportDuration (setScrollPosition x s) = viewportDuration s"
  by (simp_all add: setScrollPosition_def Let_def)

lemma scrollInRange_setScrollPosition: "scrollInRange (setScrollPosition x s)"
  by (simp add: scrollInRange_def setScrollPosition_def Let_def)

lemma setScrollPosition_idempotent:
  "setScrollPosition x (setScrollPosition x s) = setScrollPosition x s"
  by (simp add: setScrollPosition_def Let_def)

lemma scrollInRange_zoom:
  "scrollInRange (setZoomLevel z s)" "scrollInRange (zoomIn s)" "scrollInRange (zoomOut s)"
  "scrollInRange (resetZoom s)"
  by (simp_all add: scrollInRange_def setZoomLevel_def zoomIn_def zoomOut_def resetZoom_def
      Let_def)

lemma scroll_view:
  "scrollPosition (updateTotalDuration s) = scrollPosition s"
  "scrollPosition (snd (addTrack ty i s)) = scrollPosition s"
  "scrollPosition (removeTrack tid s) = scrollPosition s"
  "scrollPosition (addClipToTrack tid cd i s) = scrollPosition s"
  "scrollPosition (removeClipFromTrack tid cid s) = scrollPosition s"
  "scrollPosition (moveClipToTrack f t cid ix s) = scrollPosition s"
  "scrollPosition (reorderClipInTrack tid cid n s) = scrollPosition s"
  "scrollPosition (trimClip tid cid a b s) = scrollPosition s"
  "scrollPosition (splitClip uuid tid cid x s) = scrollPosition s"
  "scrollPosition (setPlayheadPosition p s) = scrollPosition s"
  "scrollPosition (setIsPlaying pl s) = scrollPosition s"
  "scrollPosition (updateClipStartTime f t cid y s) = scrollPosition s"
  "scrollPosition (setViewportDuration d s) = scrollPosition s"
  by (simp_all add: updateTotalDuration_def addTrack_def removeTrack_def addClipToTrack_def
      removeClipFromTrack_def moveClipToTrack_def reorderClipInTrack_def trimClip_def
      splitClip_def setPlayheadPosition_def setIsPlaying_def updateClipStartTime_def
      setViewportDuration_def Let_def split: option.splits)

lemma scrollPosition_perform:
  "scrollInRange (perform a s) \<or> scrollPosition (perform a s) = scrollPosition s"
  by (cases a) (simp_all add: scroll_view scrollInRange_zoom scrollInRange_setScrollPosition)

lemma scrollInRange_perform:
  assumes "scrollInRange s"
    and "totalDuration s - viewportDuration s
           \<le> totalDuration (perform a s) - viewportDuration (perform a s)"
  shows "scrollInRange (perform a s)"
  using scrollPosition_perform[of a s] assms by (auto simp: scrollInRange_def)

lemma scrollPosition_nonneg_perform:
  "0 \<le> scrollPosition s \<Longrightarrow> 0 \<le> scrollPosition (perform a s)"
  using scrollPosition_perform[of a s] by (auto simp: scrollInRange_def)

lemma reachable_scroll_nonneg: "reachable s \<Longrightarrow> 0 \<le> scrollPosition s"
proof (induction rule: reachable.induct)
  case reachable_init
  then show ?case by (simp add: initialState_def)
next
  case (reachable_step s a)
  from reachable_step.IH show ?case by (rule scrollPosition_nonneg_perform)
qed

text \<open>
  Claim C9, in the form that holds of the code. \<open>setScrollPosition\<close> clamps its argument
  into \<open>[0, max(0, totalDuration - viewportDuration)]\<close>, so the scroll position is in
  range right after it, and calling it twice with the same argument gives the same state
  as calling it once. The scroll position is in range after every zoom action, which
  resets it to 0, and it is never negative in a reachable state. An action keeps it in
  range when it does not decrease \<open>totalDuration - viewportDuration\<close>.
\<close>

theorem scrollPosition_bounds:
  "scrollPosition (setScrollPosition x s)
     = max 0 (min x (max 0 (totalDuration s - viewportDuration s)))
   \<and> scrollInRange (setScrollPosition x s)
   \<and> setScrollPosition x (setScrollPosition x s) = setScrollPosition x s
   \<and> scrollInRange (setZoomLevel z s) \<and> scrollInRange (zoomIn s)
   \<and> scrollInRange (zoomOut s) \<and> scrollInRange (resetZoom s)
   \<and> (reachable s \<longrightarrow> 0 \<le> scrollPosition s)
   \<and> (scrollInRange s
        \<and> totalDuration s - viewportDuration s
            \<le> totalDuration (perform a s) - viewportDuration (perform a s)
        \<longrightarrow> scrollInRange (perform a s))"
  using setScrollPosition_clamps(1)[of x s] scrollInRange_setScrollPosition[of x s]
    setScrollPosition_idempotent[of x s] scrollInRange_zoom
    reachable_scroll_nonneg[of s] scrollInRange_perform[of s a]
  by blast

theorem scrollPosition_bounds_witness:
  "reachable (setScrollPosition 100 exampleState)
   \<and> scrollPosition (setScrollPosition 100 exampleState) = 100
   \<and> scrollInRange (setScrollPosition 100 exampleState)
   \<and> totalDuration (setScrollPosition 100 exampleState)
         - viewportDuration (setScrollPosition 100 exampleState)
       \<le> totalDuration (perform (SetPlayheadPosition 400) (setScrollPosition 100 exampleState))
         - viewportDuration (perform (SetPlayheadPosition 400) (setScrollPosition 100 exampleState))
   \<and> scrollInRange (perform (SetPlayheadPosition 400) (setScrollPosition 100 exampleState))"
proof -
  let ?s = "setScrollPosition 100 exampleState"
  have "reachable (perform (SetScrollPosition 100) exampleState)"
    by (rule reachable_step) (rule reachable_exampleState)
  then have r: "reachable ?s" by simp
  have v: "scrollPosition ?s = 100"
    by (simp add: setScrollPosition_def exampleState_eq)
  have d: "totalDuration ?s - viewportDuration ?s
       \<le> totalDuration (perform (SetPlayheadPosition 400) ?s)
         - viewportDuration (perform (SetPlayheadPosition 400) ?s)"
    by (simp add: setScrollPosition_def setPlayheadPosition_def exampleState_eq Let_def)
  from scrollPosition_bounds[of 100 exampleState 1 "SetPlayheadPosition 400"]
  have i: "scrollInRange ?s" by blast
  from scrollPosition_bounds[of 100 ?s 1 "SetPlayheadPosition 400"] i d
  have "scrollInRange (perform (SetPlayheadPosition 400) ?s)" by blast
  with r v i d show ?thesis by blast
qed

lemma reachable_scrolledThenWidened: "reachable scrolledThenWidened"
proof -
  have "reachable (perform (SetScrollPosition 240) exampleState)"
    by (rule reachable_step) (rule reachable_exampleState)
  then have "reachable (perform (SetViewportDuration 120)
                          (perform (SetScrollPosition 240) exampleState))"
    by (rule reachable_step)
  then show ?thesis by (simp add: scrolledThenWidened_def)
qed

lemma reachable_scrolledThenShrunk: "reachable scrolledThenShrunk"
proof -
  have "reachable (perform (AddClipToTrack ''t1'' (exampleClipData\<lparr>duration := 1000\<rparr>) ''c2'')
                     exampleState)"
    by (rule reachable_step) (rule reachable_exampleState)
  then have "reachable (perform (SetScrollPosition 900)
       (perform (AddClipToTrack ''t1'' (exampleClipData\<lparr>duration := 1000\<rparr>) ''c2'')
          exampleState))"
    by (rule reachable_step)
  then have "reachable (perform (RemoveClipFromTrack ''t1'' ''c2'') (perform (SetScrollPosition 900)
       (perform (AddClipToTrack ''t1'' (exampleClipData\<lparr>duration := 1000\<rparr>) ''c2'')
          exampleState)))"
    by (rule reachable_step)
  then show ?thesis by (simp add: scrolledThenShrunk_def)
qed

lemma scrolledThenWidened_values:
  "scrollPosition scrolledThenWidened = 240" "totalDuration scrolledThenWidened = 300"
  "viewportDuration scrolledThenWidened = 120"
  by (simp_all add: scrolledThenWidened_def setViewportDuration_def setScrollPosition_def
      exampleState_eq)

lemma scrolledThenShrunk_values:
  "scrollPosition scrolledThenShrunk = 900" "totalDuration scrolledThenShrunk = 300"
  "viewportDuration scrolledThenShrunk = 60"
  by (simp_all add: scrolledThenShrunk_def removeClipFromTrack_def setScrollPosition_def
      addClipToTrack_def newClip_def updateTotalDuration_def clipsEnd_def exampleClipData_def
      exampleState_eq Let_def)

text \<open>
  The upper bound is not restored when the range shrinks. After scrolling to 240, a
  viewport of 120 seconds leaves the scroll position at 240 above the bound 180; and
  after scrolling to 900 under a clip of 1000 seconds, removing that clip brings the total
  duration back to 300 and leaves the scroll position at 900 above the bound 240.
\<close>

theorem scrollPosition_range_counterexample:
  "reachable scrolledThenWidened
   \<and> scrollPosition scrolledThenWidened = 240
   \<and> max 0 (totalDuration scrolledThenWidened - viewportDuration scrolledThenWidened) = 180
   \<and> \<not> scrollInRange scrolledThenWidened
   \<and> reachable scrolledThenShrunk
   \<and> scrollPosition scrolledThenShrunk = 900
   \<and> max 0 (totalDuration scrolledThenShrunk - viewportDuration scrolledThenShrunk) = 240
   \<and> \<not> scrollInRange scrolledThenShrunk"
  using reachable_scrolledThenWidened reachable_scrolledThenShrunk
  by (simp add: scrollInRange_def scrolledThenWidened_values scrolledThenShrunk_values)

section \<open>The playhead\<close>

text \<open>
  Claim C8. \<open>setPlayheadPosition\<close> sets the playhead to \<open>max(0, position)\<close>, which is
  never negative. When the new playhead is beyond \<open>totalDuration - 30\<close>, the total
  duration becomes \<open>max(totalDuration + 60, playheadPosition + 60)\<close>; otherwise it is
  unchanged. With \<open>totalDuration = 300\<close>, \<open>setPlayheadPosition(290)\<close> leaves
  \<open>totalDuration = 360\<close>, which is at least 350.
\<close>

theorem setPlayheadPosition_auto_extend:
  "playheadPosition (setPlayheadPosition position s) = max 0 position
   \<and> 0 \<le> playheadPosition (setPlayheadPosition position s)
   \<and> totalDuration (setPlayheadPosition position s)
       = (if max 0 position > totalDuration s - 30
          then max (totalDuration s + 60) (max 0 position + 60)
          else totalDuration s)
   \<and> totalDuration (setPlayheadPosition 290 (s\<lparr>totalDuration := 300\<rparr>)) = 360
   \<and> 350 \<le> totalDuration (setPlayheadPosition 290 (s\<lparr>totalDuration := 300\<rparr>))"
  by (simp add: setPlayheadPosition_def Let_def)

section \<open>The active clip\<close>

lemma getActiveClip_clips_firstActive: "getActiveClip_clips ms p cs = firstActive ms p cs"
  by (induction cs)
    (auto simp: firstActive_def atPlayhead_def mediaOf_def Let_def split: option.splits)

lemma firstActive_Nil: "firstActive ms p [] = None"
  by (simp add: firstActive_def)

lemma firstActive_append:
  "firstActive ms p (xs @ ys)
     = (case firstActive ms p xs of Some r \<Rightarrow> Some r | None \<Rightarrow> firstActive ms p ys)"
  by (induction xs) (auto simp: firstActive_def split: option.splits)

lemma getActiveClip_tracks_firstActive:
  "getActiveClip_tracks ms p trs = firstActive ms p (concat (map clips trs))"
  by (induction trs)
    (simp_all add: getActiveClip_clips_firstActive firstActive_append firstActive_Nil
      split: option.splits)

lemma getActiveClip_firstActive:
  "getActiveClip ms s = firstActive ms (playheadPosition s) (allClips s)"
  by (simp add: getActiveClip_def getActiveClip_tracks_firstActive allClips_def)

lemma getActiveClip_none:
  assumes "\<forall>clip \<in> set (allClips s).
             \<not> (atPlayhead (playheadPosition s) clip \<and> mediaOf ms clip \<noteq> None)"
  shows "getActiveClip ms s = None"
  using find_None_all[OF assms] by (simp add: getActiveClip_firstActive firstActive_def)

lemma getActiveClip_first:
  assumes "allClips s = pre @ clip # post"
    and "\<forall>c \<in> set pre. \<not> (atPlayhead (playheadPosition s) c \<and> mediaOf ms c \<noteq> None)"
    and "atPlayhead (playheadPosition s) clip" and "mediaOf ms clip = Some item"
  shows "getActiveClip ms s = Some (clip, item)"
proof -
  have "find (\<lambda>c. atPlayhead (playheadPosition s) c \<and> mediaOf ms c \<noteq> None)
          (pre @ clip # post) = Some clip"
    using assms(2-4) by (intro find_first) auto
  then show ?thesis
    using assms(1,4) by (simp add: getActiveClip_firstActive firstActive_def)
qed

text \<open>
  Claim C10. \<open>getActiveClip\<close> scans the tracks in order and each track's clips in list
  order, and returns the first clip with \<open>startTime \<le> playhead < startTime + duration\<close>
  whose \<open>mediaId\<close> is found in the media items, together with that item; a clip at the
  playhead whose media item is absent is skipped. If no clip satisfies both conditions the
  result is none. If the playhead is inside the interval of exactly one clip and that
  clip's media item is present, the result is that clip.
\<close>

theorem getActiveClip_first_match:
  "(getActiveClip ms s
      = (case find (\<lambda>clip. atPlayhead (playheadPosition s) clip \<and> mediaOf ms clip \<noteq> None)
                   (allClips s) of
           None \<Rightarrow> None
         | Some clip \<Rightarrow> map_option (Pair clip) (mediaOf ms clip)))
   \<and> ((\<forall>clip \<in> set (allClips s).
          \<not> (atPlayhead (playheadPosition s) clip \<and> mediaOf ms clip \<noteq> None))
        \<longrightarrow> getActiveClip ms s = None)
   \<and> (allClips s = pre @ clip # post
        \<and> (\<forall>c \<in> set pre. \<not> (atPlayhead (playheadPosition s) c \<and> mediaOf ms c \<noteq> None))
        \<and> atPlayhead (playheadPosition s) clip \<and> mediaOf ms clip = Some item
        \<longrightarrow> getActiveClip ms s = Some (clip, item))
   \<and> (allClips s = pre @ clip # post
        \<and> (\<forall>c \<in> set pre \<union> set post. \<not> atPlayhead (playheadPosition s) c)
        \<and> atPlayhead (playheadPosition s) clip \<and> mediaOf ms clip = Some item
        \<longrightarrow> getActiveClip ms s = Some (clip, item))"
  using getActiveClip_none[of s ms] getActiveClip_first[of s pre clip post ms item]
  by (auto simp: getActiveClip_firstActive firstActive_def)

theorem getActiveClip_first_match_witness:
  "allClips (setPlayheadPosition 4 exampleState) = [] @ hd (allClips exampleState) # []
   \<and> atPlayhead (playheadPosition (setPlayheadPosition 4 exampleState))
        (hd (allClips exampleState))
   \<and> mediaOf exampleMedia (hd (allClips exampleState)) = Some (hd exampleMedia)
   \<and> getActiveClip exampleMedia (setPlayheadPosition 4 exampleState)
       = Some (hd (allClips exampleState), hd exampleMedia)
   \<and> \<not> atPlayhead (playheadPosition (setPlayheadPosition 20 exampleState))
          (hd (allClips exampleState))
   \<and> getActiveClip exampleMedia (setPlayheadPosition 20 exampleState) = None"
proof -
  let ?s = "setPlayheadPosition 4 exampleState" and ?g = "setPlayheadPosition 20 exampleState"
  let ?c = "hd (allClips exampleState)"
  have a: "allClips ?s = [] @ ?c # []" and g: "allClips ?g = [?c]"
    by (simp_all add: exampleState_eq setPlayheadPosition_def allClips_def)
  have p: "atPlayhead (playheadPosition ?s) ?c"
    by (simp add: exampleState_eq setPlayheadPosition_def allClips_def atPlayhead_def)
  have m: "mediaOf exampleMedia ?c = Some (hd exampleMedia)"
    by (simp add: exampleState_eq allClips_def mediaOf_def exampleMedia_def)
  have n: "\<not> atPlayhead (playheadPosition ?g) ?c"
    by (simp add: exampleState_eq setPlayheadPosition_def allClips_def atPlayhead_def)
  have "getActiveClip exampleMedia ?s = Some (?c, hd exampleMedia)"
    using getActiveClip_first_match[of exampleMedia ?s "[]" ?c "[]" "hd exampleMedia"] a p m
    by simp
  moreover have "getActiveClip exampleMedia ?g = None"
    using getActiveClip_first_match[of exampleMedia ?g "[]" ?c "[]" "hd exampleMedia"] g n
    by simp
  ultimately show ?thesis using a p m n by simp
qed

end
